theory Spec2Isabelle
  imports Complex_Main
begin

section \<open>Errors and numpy helpers\<close>

text \<open>
  The Python exceptions the modelled functions raise. The payload of an
  \<open>AttributeError\<close> is its message; messages that the source formats from run-time values
  carry those values instead of the formatted text.
\<close>

datatype message =
    Msg string
  | PolygonCount nat nat
  | NoDataPoints "(real list \<times> real list \<times> real \<times> real) list"

datatype error = AttributeError message | IndexError | ValueError

definition bind_err :: "error + 'a \<Rightarrow> ('a \<Rightarrow> error + 'b) \<Rightarrow> error + 'b" where
  "bind_err r f = (case r of Inl e \<Rightarrow> Inl e | Inr x \<Rightarrow> f x)"

text \<open>Boolean-mask indexing \<open>xs[mask]\<close>: the mask must be as long as the array.\<close>

definition mask_select :: "bool list \<Rightarrow> 'a list \<Rightarrow> 'a list" where
  "mask_select msk xs = map snd (filter fst (zip msk xs))"

definition np_index :: "bool list \<Rightarrow> 'a list \<Rightarrow> error + 'a list" where
  "np_index msk xs =
     (if length msk = length xs then Inr (mask_select msk xs) else Inl IndexError)"

text \<open>\<open>np.sum\<close> of a boolean array.\<close>

definition count_true :: "bool list \<Rightarrow> nat" where
  "count_true msk = length (filter (\<lambda>b. b) msk)"

section \<open>Bin-edge constructor\<close>

text \<open>
  Modelled from the spec: \<open>_tools.binEdges\<close> is called by the cut functions but its module is
  not among the sources. Section 4.1 of the specification: sort the positions; walk the
  consecutive gaps and start a new edge whenever the span accumulated since the last edge is
  at least the tolerance; the first edge is the first point minus half the tolerance and the
  final edge the last point plus half the tolerance; no points give no edges. A new edge is
  put in the middle of the gap it opens in.
\<close>

fun walk_gaps :: "real \<Rightarrow> real \<Rightarrow> real list \<Rightarrow> real list" where
  "walk_gaps t e (x # y # xs) =
     (let m = (x + y) / 2
      in if m - e \<ge> t then m # walk_gaps t m (y # xs) else walk_gaps t e (y # xs))"
| "walk_gaps t e xs = []"

definition binEdges :: "real list \<Rightarrow> real \<Rightarrow> real list" where
  "binEdges vals tolerance =
     (case sort vals of
        [] \<Rightarrow> []
      | x # xs \<Rightarrow>
          (x - tolerance / 2) # walk_gaps tolerance (x - tolerance / 2) (x # xs)
            @ [last (x # xs) + tolerance / 2])"

section \<open>Weighted histograms\<close>

text \<open>
  \<open>np.histogramdd\<close> and \<open>np.histogram\<close> with explicit edges: the edges of every axis must be
  monotonically increasing, a sample is counted in the half-open bin it falls in, and a
  sample on the last edge belongs to the last bin. \<open>bin_index\<close> is numpy's
  \<open>searchsorted(edges, x, side='right')\<close>, decremented on the last edge.
\<close>

definition bin_index :: "real list \<Rightarrow> real \<Rightarrow> nat option" where
  "bin_index edges x =
     (let k = length (filter (\<lambda>e. e \<le> x) edges);
          k' = (if edges \<noteq> [] \<and> x = last edges then k - 1 else k)
      in if 1 \<le> k' \<and> k' < length edges then Some (k' - 1) else None)"

fun monotonic :: "real list \<Rightarrow> bool" where
  "monotonic (x # y # xs) = (x \<le> y \<and> monotonic (y # xs))"
| "monotonic xs = True"

definition histogram :: "real list \<Rightarrow> real list \<Rightarrow> real list \<Rightarrow> error + real list" where
  "histogram sample bins weights =
     (if \<not> monotonic bins \<or> length weights \<noteq> length sample then Inl ValueError
      else Inr (map (\<lambda>i. sum_list (map snd
                  (filter (\<lambda>(x, w). bin_index bins x = Some i) (zip sample weights))))
                [0..<length bins - 1]))"

definition histogram2d ::
  "(real \<times> real) list \<Rightarrow> real list \<Rightarrow> real list \<Rightarrow> real list \<Rightarrow> error + real list list" where
  "histogram2d sample bins0 bins1 weights =
     (if \<not> monotonic bins0 \<or> \<not> monotonic bins1 \<or> length weights \<noteq> length sample
      then Inl ValueError
      else Inr (map (\<lambda>i. map (\<lambda>j. sum_list (map snd
                  (filter (\<lambda>(p, w). bin_index bins0 (fst p) = Some i
                                     \<and> bin_index bins1 (snd p) = Some j) (zip sample weights))))
                  [0..<length bins1 - 1])
                [0..<length bins0 - 1]))"

section \<open>Line cuts\<close>

type_synonym vec2 = "real \<times> real"

type_synonym positions = "real list \<times> real list \<times> real list"

text \<open>
  The value \<open>cut1D\<close> returns: the four binned arrays (each histogram has one row per bin
  along the cut and a single orthogonal column), the bin edge positions
  \<open>(qx, qy, mean energy)\<close>, the orthogonal edge positions and the energy window. A
  component of \<open>orthopos\<close> is \<open>None\<close> where numpy holds NaN.
\<close>

record cut1D_result =
  intensity :: "real list list"
  MonitorCount :: "real list list"
  Normalization :: "real list list"
  normcounts :: "real list list"
  binpositionsTotal :: "(real \<times> real \<times> real) list"
  orthopos :: "(real option \<times> real option) list"
  Erange :: "real \<times> real"

definition dirLength :: "vec2 \<Rightarrow> vec2 \<Rightarrow> real" where
  "dirLength q1 q2 = sqrt ((fst q2 - fst q1)\<^sup>2 + (snd q2 - snd q1)\<^sup>2)"

definition dirvec :: "vec2 \<Rightarrow> vec2 \<Rightarrow> vec2" where
  "dirvec q1 q2 = ((fst q2 - fst q1) / dirLength q1 q2, (snd q2 - snd q1) / dirLength q1 q2)"

definition orthovec :: "vec2 \<Rightarrow> vec2 \<Rightarrow> vec2" where
  "orthovec q1 q2 = (snd (dirvec q1 q2), - fst (dirvec q1 q2))"

text \<open>
  \<open>np.dot(ProjectMatrix, positions2D - q1)\<close> for one point: its coordinate along the cut
  and its coordinate orthogonal to it.
\<close>

definition project :: "vec2 \<Rightarrow> vec2 \<Rightarrow> vec2 \<Rightarrow> vec2" where
  "project q1 q2 p =
     (fst (dirvec q1 q2) * (fst p - fst q1) + snd (dirvec q1 q2) * (snd p - snd q1),
      fst (orthovec q1 q2) * (fst p - fst q1) + snd (orthovec q1 q2) * (snd p - snd q1))"

definition insideEnergy :: "real list \<Rightarrow> real \<Rightarrow> real \<Rightarrow> bool list" where
  "insideEnergy energy Emin Emax = map (\<lambda>e. e \<le> Emax \<and> e \<ge> Emin) energy"

text \<open>The projected points the histograms are taken over, and the bin edges along the cut.\<close>

definition cut_propos :: "vec2 \<Rightarrow> vec2 \<Rightarrow> bool \<Rightarrow> vec2 list \<Rightarrow> vec2 list" where
  "cut_propos q1 q2 extend' positions2D =
     (let propos = map (project q1 q2) positions2D
      in if extend' then propos
         else mask_select (map (\<lambda>p. fst p > 0 \<and> fst p < dirLength q1 q2) propos) propos)"

definition cut_lenbins :: "real \<Rightarrow> real \<Rightarrow> vec2 list \<Rightarrow> real list" where
  "cut_lenbins width minPixel propos =
     (let orthobins = [- width / 2, width / 2];
          insideWidth = map (\<lambda>p. snd p < orthobins ! 1 \<and> snd p > orthobins ! 0) propos
      in binEdges (map fst (mask_select insideWidth propos)) minPixel)"

text \<open>
  The weights of one histogram: \<open>W[insideEnergy]\<close>, and \<open>W[insideEnergy][insideQ]\<close>
  when the cut is not extended.
\<close>

definition cut_weights ::
  "vec2 \<Rightarrow> vec2 \<Rightarrow> bool \<Rightarrow> bool list \<Rightarrow> vec2 list \<Rightarrow> real list \<Rightarrow> error + real list" where
  "cut_weights q1 q2 extend' inside positions2D W =
     bind_err (np_index inside W) (\<lambda>w.
       if extend' then Inr w
       else np_index (map (\<lambda>p. fst p > 0 \<and> fst p < dirLength q1 q2)
                        (map (project q1 q2) positions2D)) w)"

text \<open>
  \<open>cut1D\<close>. When \<open>q1 = q2\<close> the direction vector is \<open>0/0\<close>, so every projected coordinate is
  NaN, every comparison on it is false, no point is inside the width and the function
  leaves through its second empty return, with NaN in \<open>orthopos\<close>.
\<close>

definition cut1D ::
  "positions \<Rightarrow> real list \<Rightarrow> real list \<Rightarrow> real list \<Rightarrow> vec2 \<Rightarrow> vec2 \<Rightarrow> real \<Rightarrow> real
     \<Rightarrow> real \<Rightarrow> real \<Rightarrow> bool \<Rightarrow> error + cut1D_result" where
  "cut1D positions I Norm Monitor q1 q2 width minPixel Emin Emax extend' =
     (case positions of (qx, qy, energy) \<Rightarrow>
      let inside = insideEnergy energy Emin Emax
      in if count_true inside = 0
         then Inr \<lparr>intensity = [], MonitorCount = [], Normalization = [], normcounts = [],
                   binpositionsTotal = [], orthopos = [], Erange = (Emin, Emax)\<rparr>
         else
           bind_err (np_index inside qx) (\<lambda>px.
           bind_err (np_index inside qy) (\<lambda>py.
             if dirLength q1 q2 = 0
             then Inr \<lparr>intensity = [], MonitorCount = [], Normalization = [], normcounts = [],
                       binpositionsTotal = [], orthopos = [(None, None), (None, None)],
                       Erange = (Emin, Emax)\<rparr>
             else
               let positions2D = zip px py;
                   propos = cut_propos q1 q2 extend' positions2D;
                   orthobins = [- width / 2, width / 2];
                   lenbins = cut_lenbins width minPixel propos;
                   opos = map (\<lambda>b. (Some (b * fst (orthovec q1 q2)),
                                      Some (b * snd (orthovec q1 q2)))) orthobins;
                   binpositions = map (\<lambda>l. (l * fst (dirvec q1 q2) + fst q1,
                                             l * snd (dirvec q1 q2) + snd q1,
                                             (Emin + Emax) * 0.5)) lenbins
               in if length lenbins = 0
                  then Inr \<lparr>intensity = [], MonitorCount = [], Normalization = [],
                            normcounts = [], binpositionsTotal = [], orthopos = opos,
                            Erange = (Emin, Emax)\<rparr>
                  else
                    bind_err (histogram2d propos lenbins orthobins
                                (replicate (length propos) 1)) (\<lambda>nc.
                    bind_err (cut_weights q1 q2 extend' inside positions2D I) (\<lambda>wI.
                    bind_err (histogram2d propos lenbins orthobins wI) (\<lambda>hI.
                    bind_err (cut_weights q1 q2 extend' inside positions2D Monitor) (\<lambda>wM.
                    bind_err (histogram2d propos lenbins orthobins wM) (\<lambda>hM.
                    bind_err (cut_weights q1 q2 extend' inside positions2D Norm) (\<lambda>wN.
                    bind_err (histogram2d propos lenbins orthobins wN) (\<lambda>hN.
                      Inr \<lparr>intensity = hI, MonitorCount = hM, Normalization = hN,
                           normcounts = nc, binpositionsTotal = binpositions,
                           orthopos = opos, Erange = (Emin, Emax)\<rparr>))))))))))"

subsection \<open>Cut at a constant Q point\<close>

text \<open>
  A numpy array as far as the cut at a constant Q point needs it: the shape and the
  elements in row-major order.
\<close>

record ndarray =
  shape :: "nat list"
  elems :: "real list"

text \<open>
  The argument objects of \<open>cut1DE\<close>. They belong to the caller and the function receives
  references to them, so the model returns them next to the result, as they are when
  the call ends (also when it ends in an exception).
\<close>

record cut1DE_args =
  arg_positions :: positions
  arg_I :: "real list"
  arg_Norm :: "real list"
  arg_Monitor :: "real list"
  arg_q :: ndarray

record cut1DE_result =
  intensityE :: "real list"
  MonitorCountE :: "real list"
  NormalizationE :: "real list"
  normcountsE :: "real list"
  binsE :: "real list list"

text \<open>\<open>astype(np.int64)\<close> on a float: the fraction is dropped.\<close>

definition to_int64 :: "real \<Rightarrow> real" where
  "to_int64 x = (if x \<ge> 0 then of_int \<lfloor>x\<rfloor> else of_int \<lceil>x\<rceil>)"

text \<open>
  The body of \<open>cut1DE\<close> after the shape of \<open>q\<close> is settled. \<open>q\<close> is documented as a
  two-component vector; with any other shape than \<open>(2,1)\<close> the subtraction
  \<open>positions[:2] - q\<close> is modelled as the broadcast failure.
\<close>

definition distToQ :: "positions \<Rightarrow> ndarray \<Rightarrow> real list" where
  "distToQ positions q =
     (case positions of (qx, qy, energy) \<Rightarrow>
      map (\<lambda>(x, y). sqrt ((x - elems q ! 0)\<^sup>2 + (y - elems q ! 1)\<^sup>2)) (zip qx qy))"

definition cut1DE_body ::
  "cut1DE_args \<Rightarrow> real \<Rightarrow> real \<Rightarrow> real \<Rightarrow> real \<Rightarrow> error + cut1DE_result" where
  "cut1DE_body a E1 E2 width minPixel =
     (case arg_positions a of (qx, qy, energy) \<Rightarrow>
      if shape (arg_q a) \<noteq> [2, 1] \<or> length (elems (arg_q a)) \<noteq> 2
         \<or> length qx \<noteq> length qy
      then Inl ValueError
      else
        let inside = map (\<lambda>d. d < width) (distToQ (arg_positions a) (arg_q a));
            insideE = insideEnergy energy E1 E2
        in if count_true insideE = 0
           then Inl (AttributeError (Msg ''No points are within the provided energy limits.''))
           else if count_true inside = 0
           then Inl (AttributeError (Msg ''No points are inside selected q range.''))
           else if length inside \<noteq> length insideE then Inl ValueError
           else
             let allInside = map (\<lambda>(b, c). b \<and> c) (zip inside insideE);
                 Energies = mask_select allInside energy;
                 bins = binEdges Energies minPixel
             in if length bins = 0
                then Inr \<lparr>intensityE = [], MonitorCountE = [], NormalizationE = [],
                          normcountsE = [], binsE = [[E1, E2]]\<rparr>
                else
                  bind_err (histogram Energies bins (replicate (length Energies) 1)) (\<lambda>nc.
                  bind_err (np_index allInside (arg_I a)) (\<lambda>wI.
                  bind_err (histogram Energies bins wI) (\<lambda>hI.
                  bind_err (np_index allInside (arg_Monitor a)) (\<lambda>wM.
                  bind_err (histogram Energies bins (map to_int64 wM)) (\<lambda>hM.
                  bind_err (np_index allInside (arg_Norm a)) (\<lambda>wN.
                  bind_err (histogram Energies bins wN) (\<lambda>hN.
                    Inr \<lparr>intensityE = hI, MonitorCountE = hM, NormalizationE = hN,
                         normcountsE = nc, binsE = [bins]\<rparr>))))))))"

text \<open>
  \<open>cut1DE\<close>: a one-dimensional \<open>q\<close> gets its \<open>shape\<close> attribute assigned \<open>(2,1)\<close>, which
  numpy refuses unless the array has two elements; then the body runs.
\<close>

definition cut1DE ::
  "cut1DE_args \<Rightarrow> real \<Rightarrow> real \<Rightarrow> real \<Rightarrow> real \<Rightarrow> (error + cut1DE_result) \<times> cut1DE_args" where
  "cut1DE a E1 E2 width minPixel =
     (if length (shape (arg_q a)) = 1
      then (if length (elems (arg_q a)) = 2
            then (let a' = a\<lparr>arg_q := (arg_q a)\<lparr>shape := [2, 1]\<rparr>\<rparr>
                  in (cut1DE_body a' E1 E2 width minPixel, a'))
            else (Inl ValueError, a))
      else (cut1DE_body a E1 E2 width minPixel, a))"

subsection \<open>Cuts over energy slices and along a path\<close>

record cutQE_result =
  dataQE :: "cut1D_result list"
  centerPos :: "(real \<times> real \<times> real) list list"
  binDistance :: "real list list"

text \<open>\<open>0.5*(position[0][:-1]+position[0][1:])\<close>: the centres of consecutive edge positions.\<close>

definition centers :: "(real \<times> real \<times> real) list \<Rightarrow> (real \<times> real \<times> real) list" where
  "centers ps =
     map (\<lambda>((x, y, e), (x', y', e')). (0.5 * (x + x'), 0.5 * (y + y'), 0.5 * (e + e')))
       (zip (butlast ps) (tl ps))"

definition distances :: "vec2 \<Rightarrow> (real \<times> real \<times> real) list \<Rightarrow> real list" where
  "distances q1 cs = map (\<lambda>(x, y, e). sqrt ((x - fst q1)\<^sup>2 + (y - snd q1)\<^sup>2)) cs"

text \<open>
  The loop of \<open>cutQE\<close> over the consecutive pairs of energy edges: a slice whose intensity
  array is empty is skipped, an exception of \<open>cut1D\<close> ends the loop.
\<close>

fun cutQE_loop ::
  "positions \<Rightarrow> real list \<Rightarrow> real list \<Rightarrow> real list \<Rightarrow> vec2 \<Rightarrow> vec2 \<Rightarrow> real \<Rightarrow> real
     \<Rightarrow> bool \<Rightarrow> (real \<times> real) list \<Rightarrow> error + cut1D_result list" where
  "cutQE_loop positions I Norm Monitor q1 q2 width minPix extend' [] = Inr []"
| "cutQE_loop positions I Norm Monitor q1 q2 width minPix extend' ((Emin, Emax) # ws) =
     bind_err (cut1D positions I Norm Monitor q1 q2 width minPix Emin Emax extend') (\<lambda>r.
     bind_err (cutQE_loop positions I Norm Monitor q1 q2 width minPix extend' ws) (\<lambda>rs.
       if length (intensity r) = 0 then Inr rs else Inr (r # rs)))"

definition energy_windows :: "real list \<Rightarrow> (real \<times> real) list" where
  "energy_windows EnergyBins = zip (butlast EnergyBins) (tl EnergyBins)"

definition cutQE ::
  "positions \<Rightarrow> real list \<Rightarrow> real list \<Rightarrow> real list \<Rightarrow> vec2 \<Rightarrow> vec2 \<Rightarrow> real \<Rightarrow> real
     \<Rightarrow> real list \<Rightarrow> bool \<Rightarrow> error + cutQE_result" where
  "cutQE positions I Norm Monitor q1 q2 width minPix EnergyBins extend' =
     bind_err (cutQE_loop positions I Norm Monitor q1 q2 width minPix extend'
                 (energy_windows EnergyBins)) (\<lambda>rs.
       Inr \<lparr>dataQE = rs,
            centerPos = map (\<lambda>r. centers (binpositionsTotal r)) rs,
            binDistance = map (\<lambda>r. distances q1 (centers (binpositionsTotal r))) rs\<rparr>)"

subsection \<open>The data set and its path cut\<close>












section \<open>Rectangular grid and voxelizer\<close>

text \<open>
  A three-dimensional numpy array: its shape and its element at an index triple. The
  elements outside the shape are never read by the functions below.
\<close>

record array3 =
  shape3 :: "nat \<times> nat \<times> nat"
  el :: "nat \<Rightarrow> nat \<Rightarrow> nat \<Rightarrow> real"

definition n0 :: "array3 \<Rightarrow> nat" where "n0 A = fst (shape3 A)"
definition n1 :: "array3 \<Rightarrow> nat" where "n1 A = fst (snd (shape3 A))"
definition n2 :: "array3 \<Rightarrow> nat" where "n2 A = snd (snd (shape3 A))"

text \<open>\<open>np.diff(A, axis)\<close> for the three axes.\<close>

definition diff0 :: "array3 \<Rightarrow> nat \<Rightarrow> nat \<Rightarrow> nat \<Rightarrow> real" where
  "diff0 A i j k = el A (i + 1) j k - el A i j k"

definition diff1 :: "array3 \<Rightarrow> nat \<Rightarrow> nat \<Rightarrow> nat \<Rightarrow> real" where
  "diff1 A i j k = el A i (j + 1) k - el A i j k"

definition diff2 :: "array3 \<Rightarrow> nat \<Rightarrow> nat \<Rightarrow> nat \<Rightarrow> real" where
  "diff2 A i j k = el A i j (k + 1) - el A i j k"

text \<open>A slice assignment: the elements of the region get the new values.\<close>

text \<open>An in-place subtraction on a slice: \<open>A[region] -= d\<close>.\<close>

definition isub3 ::
  "(nat \<Rightarrow> nat \<Rightarrow> nat \<Rightarrow> bool) \<Rightarrow> (nat \<Rightarrow> nat \<Rightarrow> nat \<Rightarrow> real) \<Rightarrow> (nat \<Rightarrow> nat \<Rightarrow> nat \<Rightarrow> real)
     \<Rightarrow> nat \<Rightarrow> nat \<Rightarrow> nat \<Rightarrow> real" where
  "isub3 region d A = (\<lambda>i j k. if region i j k then A i j k - d i j k else A i j k)"

definition assign3 ::
  "(nat \<Rightarrow> nat \<Rightarrow> nat \<Rightarrow> bool) \<Rightarrow> (nat \<Rightarrow> nat \<Rightarrow> nat \<Rightarrow> real) \<Rightarrow> (nat \<Rightarrow> nat \<Rightarrow> nat \<Rightarrow> real)
     \<Rightarrow> nat \<Rightarrow> nat \<Rightarrow> nat \<Rightarrow> real" where
  "assign3 region new old = (\<lambda>i j k. if region i j k then new i j k else old i j k)"

text \<open>
  The statements of \<open>calculateGrid3D\<close> for one of its three arrays, here named as for \<open>X\<close>.
  Negative indices are written out: \<open>-1\<close> of an axis of length \<open>n\<close> is \<open>n - 1\<close>. First the
  copy \<open>XX\<close> of the centres is moved back, along each axis in turn, by half the spacing to
  the next centre, the last centre by half the last spacing.
\<close>

definition XX_of :: "array3 \<Rightarrow> nat \<Rightarrow> nat \<Rightarrow> nat \<Rightarrow> real" where
  "XX_of X =
     isub3 (\<lambda>i j k. k = n2 X - 1) (\<lambda>i j k. 0.5 * diff2 X i j (n2 X - 2))
    (isub3 (\<lambda>i j k. k < n2 X - 1) (\<lambda>i j k. 0.5 * diff2 X i j k)
    (isub3 (\<lambda>i j k. j = n1 X - 1) (\<lambda>i j k. 0.5 * diff1 X i (n1 X - 2) k)
    (isub3 (\<lambda>i j k. j < n1 X - 1) (\<lambda>i j k. 0.5 * diff1 X i j k)
    (isub3 (\<lambda>i j k. i = n0 X - 1) (\<lambda>i j k. 0.5 * diff0 X (n0 X - 2) j k)
    (isub3 (\<lambda>i j k. i < n0 X - 1) (\<lambda>i j k. 0.5 * diff0 X i j k) (el X))))))"

text \<open>
  Then \<open>XT\<close>, one element longer along every axis, is filled: the block of \<open>XX\<close>, the three
  outer faces, the three outer edges and the outer corner, one assignment each, in the
  order of the source.
\<close>

definition XT1_of :: "array3 \<Rightarrow> nat \<Rightarrow> nat \<Rightarrow> nat \<Rightarrow> real" where
  "XT1_of X = assign3 (\<lambda>i j k. i < n0 X \<and> j < n1 X \<and> k < n2 X) (XX_of X) (\<lambda>i j k. 0)"

definition XT2_of :: "array3 \<Rightarrow> nat \<Rightarrow> nat \<Rightarrow> nat \<Rightarrow> real" where
  "XT2_of X = assign3 (\<lambda>i j k. i = n0 X \<and> j < n1 X \<and> k < n2 X)
     (\<lambda>i j k. XT1_of X (n0 X - 1) j k + diff0 X (n0 X - 2) j k) (XT1_of X)"

definition XT3_of :: "array3 \<Rightarrow> nat \<Rightarrow> nat \<Rightarrow> nat \<Rightarrow> real" where
  "XT3_of X = assign3 (\<lambda>i j k. i < n0 X \<and> j = n1 X \<and> k < n2 X)
     (\<lambda>i j k. XT2_of X i (n1 X - 1) k + diff1 X i (n1 X - 2) k) (XT2_of X)"

definition XT4_of :: "array3 \<Rightarrow> nat \<Rightarrow> nat \<Rightarrow> nat \<Rightarrow> real" where
  "XT4_of X = assign3 (\<lambda>i j k. i < n0 X \<and> j < n1 X \<and> k = n2 X)
     (\<lambda>i j k. XT3_of X i j (n2 X - 1) + diff2 X i j (n2 X - 2)) (XT3_of X)"

definition XT5_of :: "array3 \<Rightarrow> nat \<Rightarrow> nat \<Rightarrow> nat \<Rightarrow> real" where
  "XT5_of X = assign3 (\<lambda>i j k. i < n0 X \<and> j = n1 X \<and> k = n2 X)
     (\<lambda>i j k. 0.5 * (XT4_of X i (n1 X) (n2 X - 1) + diff2 X i (n1 X - 1) (n2 X - 2)
                      + XT4_of X i (n1 X - 1) (n2 X) + diff1 X i (n1 X - 2) (n2 X - 1)))
     (XT4_of X)"

definition XT6_of :: "array3 \<Rightarrow> nat \<Rightarrow> nat \<Rightarrow> nat \<Rightarrow> real" where
  "XT6_of X = assign3 (\<lambda>i j k. i = n0 X \<and> j < n1 X \<and> k = n2 X)
     (\<lambda>i j k. 0.5 * (XT5_of X (n0 X) j (n2 X - 1) + diff2 X (n0 X - 1) j (n2 X - 2)
                      + XT5_of X (n0 X - 1) j (n2 X) + diff0 X (n0 X - 2) j (n2 X - 1)))
     (XT5_of X)"

definition XT7_of :: "array3 \<Rightarrow> nat \<Rightarrow> nat \<Rightarrow> nat \<Rightarrow> real" where
  "XT7_of X = assign3 (\<lambda>i j k. i = n0 X \<and> j = n1 X \<and> k < n2 X)
     (\<lambda>i j k. 0.5 * (XT6_of X (n0 X) (n1 X - 1) k + diff1 X (n0 X - 1) (n1 X - 2) k
                      + XT6_of X (n0 X - 1) (n1 X) k + diff0 X (n0 X - 2) (n1 X - 1) k))
     (XT6_of X)"

definition XT_of :: "array3 \<Rightarrow> nat \<Rightarrow> nat \<Rightarrow> nat \<Rightarrow> real" where
  "XT_of X = assign3 (\<lambda>i j k. i = n0 X \<and> j = n1 X \<and> k = n2 X)
     (\<lambda>i j k. (XT7_of X (n0 X) (n1 X - 1) (n2 X) + diff1 X (n0 X - 1) (n1 X - 2) (n2 X - 1)
                + XT7_of X (n0 X - 1) (n1 X) (n2 X) + diff0 X (n0 X - 2) (n1 X - 1) (n2 X - 1)
                + XT7_of X (n0 X) (n1 X) (n2 X - 1) + diff2 X (n0 X - 1) (n1 X - 1) (n2 X - 2))
               / 3)
     (XT7_of X)"

definition centers_to_edges :: "array3 \<Rightarrow> array3" where
  "centers_to_edges X = \<lparr>shape3 = (n0 X + 1, n1 X + 1, n2 X + 1), el = XT_of X\<rparr>"

text \<open>
  \<open>calculateGrid3D\<close>. The last element of each difference array is read with the index
  \<open>-1\<close>, which raises \<open>IndexError\<close> when the axis has fewer than two centres. \<open>Y\<close> and \<open>Z\<close>
  are written into arrays of the shape of \<open>X\<close>; the three arrays come from one
  \<open>np.meshgrid\<close> call, and a different shape is reported as the failing assignment.
\<close>

definition calculateGrid3D :: "array3 \<Rightarrow> array3 \<Rightarrow> array3 \<Rightarrow> error + array3 \<times> array3 \<times> array3" where
  "calculateGrid3D X Y Z =
     (if n0 X < 2 \<or> n1 X < 2 \<or> n2 X < 2 then Inl IndexError
      else if shape3 Y \<noteq> shape3 X \<or> shape3 Z \<noteq> shape3 X then Inl ValueError
      else Inr (centers_to_edges X, centers_to_edges Y, centers_to_edges Z))"

text \<open>\<open>np.round\<close> rounds a half to the even neighbour.\<close>

definition np_round :: "real \<Rightarrow> int" where
  "np_round x =
     (let f = \<lfloor>x\<rfloor>
      in if x - of_int f < 1 / 2 then f
         else if x - of_int f > 1 / 2 then f + 1
         else if even f then f else f + 1)"

definition linspace :: "real \<Rightarrow> real \<Rightarrow> int \<Rightarrow> error + real list" where
  "linspace start stop num =
     (if num < 0 then Inl ValueError
      else if num = 1 then Inr [start]
      else Inr (map (\<lambda>i. start + real i * ((stop - start) / real_of_int (num - 1)))
                  [0..<nat num]))"

definition np_min :: "real list \<Rightarrow> error + real" where
  "np_min xs = (if xs = [] then Inl ValueError else Inr (Min (set xs)))"

definition np_max :: "real list \<Rightarrow> error + real" where
  "np_max xs = (if xs = [] then Inl ValueError else Inr (Max (set xs)))"

text \<open>
  The number of bin centres along one axis, \<open>np.round(diff/d).astype(int)+1\<close>. With a zero
  step the quotient is infinite or NaN, its conversion to an integer is negative and
  \<open>np.linspace\<close> refuses it, so a zero step is given a negative count.
\<close>

definition bin_count :: "real \<Rightarrow> real \<Rightarrow> real \<Rightarrow> int" where
  "bin_count lo hi d = (if d = 0 then - 1 else np_round (\<bar>hi - lo\<bar> / d) + 1)"

text \<open>\<open>np.meshgrid(_X, _Y, _Z, indexing='ij')\<close>.\<close>

definition meshgrid :: "real list \<Rightarrow> real list \<Rightarrow> real list \<Rightarrow> array3 \<times> array3 \<times> array3" where
  "meshgrid xs ys zs =
     (\<lparr>shape3 = (length xs, length ys, length zs), el = (\<lambda>i j k. xs ! i)\<rparr>,
      \<lparr>shape3 = (length xs, length ys, length zs), el = (\<lambda>i j k. ys ! j)\<rparr>,
      \<lparr>shape3 = (length xs, length ys, length zs), el = (\<lambda>i j k. zs ! k)\<rparr>)"

definition calculateBins ::
  "real \<Rightarrow> real \<Rightarrow> real \<Rightarrow> positions \<Rightarrow> error + array3 \<times> array3 \<times> array3" where
  "calculateBins dx dy dz pos =
     (case pos of (px, py, pz) \<Rightarrow>
      bind_err (np_max px) (\<lambda>xmax. bind_err (np_min px) (\<lambda>xmin.
      bind_err (np_max py) (\<lambda>ymax. bind_err (np_min py) (\<lambda>ymin.
      bind_err (np_max pz) (\<lambda>zmax. bind_err (np_min pz) (\<lambda>zmin.
      bind_err (linspace xmin xmax (bin_count xmin xmax dx)) (\<lambda>X.
      bind_err (linspace ymin ymax (bin_count ymin ymax dy)) (\<lambda>Y.
      bind_err (linspace zmin zmax (bin_count zmin zmax dz)) (\<lambda>Z.
        case meshgrid X Y Z of (XG, YG, ZG) \<Rightarrow> calculateGrid3D XG YG ZG))))))))))"

text \<open>
  A flattened data array with its element type, and a histogram with its element type
  and shape. \<open>astype\<close> to the integer type drops the fraction.
\<close>

datatype dtype = Int64 | Float64

record ndata =
  dtype_of :: dtype
  vals :: "real list"

record hist3 =
  hdtype :: dtype
  hshape :: "nat \<times> nat \<times> nat"
  hvals :: "real list list list"

definition cast :: "dtype \<Rightarrow> real \<Rightarrow> real" where
  "cast t x = (case t of Int64 \<Rightarrow> to_int64 x | Float64 \<Rightarrow> x)"

text \<open>\<open>np.histogramdd\<close> over three axes followed by \<open>astype\<close>.\<close>

definition histogram3d ::
  "positions \<Rightarrow> real list \<Rightarrow> real list \<Rightarrow> real list \<Rightarrow> real list \<Rightarrow> dtype \<Rightarrow> error + hist3" where
  "histogram3d pos b0 b1 b2 weights t =
     (case pos of (px, py, pz) \<Rightarrow>
      if length py \<noteq> length px \<or> length pz \<noteq> length px
         \<or> \<not> monotonic b0 \<or> \<not> monotonic b1 \<or> \<not> monotonic b2
         \<or> length weights \<noteq> length px
      then Inl ValueError
      else Inr \<lparr>hdtype = t,
                hshape = (length b0 - 1, length b1 - 1, length b2 - 1),
                hvals = map (\<lambda>i. map (\<lambda>j. map (\<lambda>k. cast t (sum_list (map snd
                          (filter (\<lambda>((x, y, z), w). bin_index b0 x = Some i
                                     \<and> bin_index b1 y = Some j \<and> bin_index b2 z = Some k)
                             (zip (zip px (zip py pz)) weights)))))
                          [0..<length b2 - 1]) [0..<length b1 - 1]) [0..<length b0 - 1]\<rparr>)"

text \<open>
  \<open>binData3D\<close>: the bins are computed unless given, the histogram edges are the first
  line of each edge array along its own axis, and the returned list holds the intensity,
  then the monitor if there is one, then the normalization and its count if there is one.
\<close>

definition binData3D ::
  "real \<Rightarrow> real \<Rightarrow> real \<Rightarrow> positions \<Rightarrow> ndata \<Rightarrow> ndata option \<Rightarrow> ndata option
     \<Rightarrow> (array3 \<times> array3 \<times> array3) option
     \<Rightarrow> error + hist3 list \<times> (array3 \<times> array3 \<times> array3)" where
  "binData3D dx dy dz pos data' norm' mon bins =
     bind_err (case bins of None \<Rightarrow> calculateBins dx dy dz pos | Some b \<Rightarrow> Inr b) (\<lambda>bins'.
       case bins' of (XX, YY, ZZ) \<Rightarrow>
       let HistBins0 = map (\<lambda>i. el XX i 0 0) [0..<n0 XX];
           HistBins1 = map (\<lambda>j. el YY 0 j 0) [0..<n1 YY];
           HistBins2 = map (\<lambda>k. el ZZ 0 0 k) [0..<n2 ZZ]
       in bind_err (histogram3d pos HistBins0 HistBins1 HistBins2 (vals data') (dtype_of data'))
            (\<lambda>intensity'.
          bind_err (case mon of None \<Rightarrow> Inr []
                    | Some m \<Rightarrow> bind_err (histogram3d pos HistBins0 HistBins1 HistBins2
                                            (vals m) (dtype_of m)) (\<lambda>h. Inr [h]))
            (\<lambda>MonitorCount'.
          bind_err (case norm' of None \<Rightarrow> Inr []
                    | Some n \<Rightarrow>
                        bind_err (histogram3d pos HistBins0 HistBins1 HistBins2
                                    (vals n) (dtype_of n)) (\<lambda>h.
                        bind_err (histogram3d pos HistBins0 HistBins1 HistBins2
                                    (replicate (length (vals data')) 1) Int64) (\<lambda>c.
                          Inr [h, c])))
            (\<lambda>Normalization'.
              Inr (intensity' # MonitorCount' @ Normalization', bins')))))"

section \<open>Convex-hull boundary\<close>

text \<open>
  The geometry libraries (shapely, scipy.spatial) are external. Their objects are of an
  abstract type \<open>'g\<close> and their operations are the fields of a record: \<open>PolygonS\<close> builds a
  polygon from its vertices, \<open>boundary_coords\<close> is \<open>P.boundary.coords\<close>, \<open>ConvexHull\<close> gives
  the input points at the vertices of the hull, \<open>Voronoi\<close> the vertices and the regions of
  the diagram (a region is a list of vertex indices, \<open>-1\<close> standing for the point at
  infinity), and \<open>intersection\<close> either one polygon or a collection of them.
\<close>

datatype 'g inter = Single 'g | Collection "'g list"

record 'g geometry =
  PolygonS :: "vec2 list \<Rightarrow> 'g"
  boundary_coords :: "'g \<Rightarrow> vec2 list"
  ConvexHull :: "vec2 list \<Rightarrow> vec2 list"
  Voronoi :: "vec2 list \<Rightarrow> vec2 list \<times> int list list"
  contains_point :: "'g \<Rightarrow> vec2 \<Rightarrow> bool"
  contains_poly :: "'g \<Rightarrow> 'g \<Rightarrow> bool"
  union_poly :: "'g \<Rightarrow> 'g \<Rightarrow> 'g"
  intersection :: "'g \<Rightarrow> 'g \<Rightarrow> 'g inter"
  area :: "'g \<Rightarrow> real"

text \<open>\<open>np.unique\<close> of a one-dimensional array: its distinct values in ascending order.\<close>

definition np_unique :: "real list \<Rightarrow> real list" where
  "np_unique xs = sort (remdups xs)"

text \<open>
  The points \<open>convexHullPoints\<close> hands to the hull: the left and right strips, the bottom
  and top strips and the four corners. \<open>np.diff(...)[[0,-1]]\<close> raises \<open>IndexError\<close> when an
  axis has fewer than two distinct values.
\<close>

definition boundary_points :: "real list \<Rightarrow> real list \<Rightarrow> error + vec2 list" where
  "boundary_points A3 A4 =
     (let A3Unique = np_unique A3; A4Unique = np_unique A4
      in if length A3Unique < 2 \<or> length A4Unique < 2 then Inl IndexError
         else
           let A3Step0 = (A3Unique ! 1 - A3Unique ! 0) * 0.5;
               A3Step1 = (last A3Unique - A3Unique ! (length A3Unique - 2)) * 0.5;
               A4Step0 = (A4Unique ! 1 - A4Unique ! 0) * 0.5;
               A4Step1 = (last A4Unique - A4Unique ! (length A4Unique - 2)) * 0.5;
               addLeft = map (\<lambda>y. (A3Unique ! 0 - A3Step0, y)) A4Unique;
               addRight = map (\<lambda>y. (last A3Unique + A3Step1, y)) A4Unique;
               addBottom = map (\<lambda>x. (x, A4Unique ! 0 - A4Step0)) A3Unique;
               addTop = map (\<lambda>x. (x, last A4Unique + A4Step1)) A3Unique;
               corners = [(fst (addLeft ! 0), snd (addBottom ! 0)),
                          (fst (addLeft ! 0), snd (last addTop)),
                          (fst (last addRight), snd (addBottom ! 0)),
                          (fst (last addRight), snd (last addTop))]
           in Inr (addLeft @ addRight @ addBottom @ addTop @ corners))"

definition hull_vertices :: "'g geometry \<Rightarrow> real list \<Rightarrow> real list \<Rightarrow> error + vec2 list" where
  "hull_vertices geo A3 A4 = bind_err (boundary_points A3 A4) (\<lambda>b. Inr (ConvexHull geo b))"

definition convexHullPoints :: "'g geometry \<Rightarrow> real list \<Rightarrow> real list \<Rightarrow> error + 'g" where
  "convexHullPoints geo A3 A4 =
     bind_err (hull_vertices geo A3 A4) (\<lambda>bound. Inr (PolygonS geo bound))"

text \<open>
  What the hull and the polygon mean, for stating that a point is strictly inside the
  boundary. \<open>cross a b p\<close> is positive when \<open>p\<close> lies strictly to the left of the directed
  line from \<open>a\<close> to \<open>b\<close>. The contract of \<open>scipy.spatial.ConvexHull\<close> in two dimensions: the
  vertices are input points, in counterclockwise order, consecutive vertices differ, and
  no input point lies to the right of an edge. A point is strictly inside a convex
  polygon with counterclockwise vertices when it lies strictly to the left of every edge.
\<close>

definition cross :: "vec2 \<Rightarrow> vec2 \<Rightarrow> vec2 \<Rightarrow> real" where
  "cross a b p = (fst b - fst a) * (snd p - snd a) - (snd b - snd a) * (fst p - fst a)"

definition polygon_edges :: "vec2 list \<Rightarrow> (vec2 \<times> vec2) list" where
  "polygon_edges vs = zip vs (rotate1 vs)"

definition is_convex_hull :: "vec2 list \<Rightarrow> vec2 list \<Rightarrow> bool" where
  "is_convex_hull pts vs =
     (3 \<le> length vs \<and> list_all (\<lambda>v. v \<in> set pts) vs
      \<and> list_all (\<lambda>e. fst e \<noteq> snd e) (polygon_edges vs)
      \<and> list_all (\<lambda>e. list_all (\<lambda>q. 0 \<le> cross (fst e) (snd e) q) pts) (polygon_edges vs))"

definition strictly_inside :: "vec2 list \<Rightarrow> vec2 \<Rightarrow> bool" where
  "strictly_inside vs p = list_all (\<lambda>e. 0 < cross (fst e) (snd e) p) (polygon_edges vs)"

section \<open>Properties of the line cuts\<close>

lemma binEdges_Nil: "binEdges [] t = []"
  by (simp add: binEdges_def)

lemma mask_select_all_False: "count_true msk = 0 \<Longrightarrow> mask_select msk xs = []"
  by (auto simp: count_true_def mask_select_def filter_empty_conv dest!: set_zip_leftD)

text \<open>
  C3, as stated, fails for \<open>cut1DE\<close>: with one measured point of energy 0 and the energy
  window from 500 to 700 (the window the repository's own test uses), \<open>cut1DE\<close> raises
  \<open>AttributeError\<close> instead of returning an empty result.
\<close>

theorem cut1DE_raises_counterexample:
  "fst (cut1DE \<lparr>arg_positions = ([0], [0], [0]), arg_I = [1], arg_Norm = [1], arg_Monitor = [1],
                 arg_q = \<lparr>shape = [2, 1], elems = [0, 0]\<rparr>\<rparr> 500 700 (1/10) (1/100))
     = Inl (AttributeError (Msg ''No points are within the provided energy limits.''))"
  by (simp add: cut1DE_def cut1DE_body_def insideEnergy_def count_true_def distToQ_def)

text \<open>
  C3 (amended): \<open>cut1D\<close> with an energy window that holds no point returns the empty
  result, four zero-length arrays and the energy window, and raises nothing. \<open>cut1DE\<close>, for
  a two-component \<open>q\<close>, raises \<open>AttributeError\<close> when no point lies in the energy window,
  and also when some point does but no point lies within \<open>width\<close> of \<open>q\<close>; when each of the
  two filters keeps a point and no point passes both, it returns the empty result with
  the bin list \<open>[[E1, E2]]\<close>.
\<close>

theorem empty_cut_results:
  "(count_true (insideEnergy energy Emin Emax) = 0 \<longrightarrow>
      cut1D (qx, qy, energy) I Norm Monitor q1 q2 width minPixel Emin Emax extend'
        = Inr \<lparr>intensity = [], MonitorCount = [], Normalization = [], normcounts = [],
               binpositionsTotal = [], orthopos = [], Erange = (Emin, Emax)\<rparr>)
   \<and> (arg_positions a = (qx, qy, energy) \<and> length qx = length qy
        \<and> shape (arg_q a) \<in> {[2], [2, 1]} \<and> length (elems (arg_q a)) = 2 \<longrightarrow>
      (count_true (insideEnergy energy E1 E2) = 0 \<longrightarrow>
         fst (cut1DE a E1 E2 width minPixel)
           = Inl (AttributeError (Msg ''No points are within the provided energy limits.'')))
      \<and> (count_true (insideEnergy energy E1 E2) \<noteq> 0
           \<and> count_true (map (\<lambda>d. d < width) (distToQ (qx, qy, energy) (arg_q a))) = 0 \<longrightarrow>
         fst (cut1DE a E1 E2 width minPixel)
           = Inl (AttributeError (Msg ''No points are inside selected q range.'')))
      \<and> (count_true (insideEnergy energy E1 E2) \<noteq> 0
           \<and> count_true (map (\<lambda>d. d < width) (distToQ (qx, qy, energy) (arg_q a))) \<noteq> 0
           \<and> length energy = length qx
           \<and> count_true (map (\<lambda>(b, c). b \<and> c)
                 (zip (map (\<lambda>d. d < width) (distToQ (qx, qy, energy) (arg_q a)))
                      (insideEnergy energy E1 E2))) = 0 \<longrightarrow>
         fst (cut1DE a E1 E2 width minPixel)
           = Inr \<lparr>intensityE = [], MonitorCountE = [], NormalizationE = [],
                  normcountsE = [], binsE = [[E1, E2]]\<rparr>))"
proof (intro conjI impI)
  assume "count_true (insideEnergy energy Emin Emax) = 0"
  then show "cut1D (qx, qy, energy) I Norm Monitor q1 q2 width minPixel Emin Emax extend'
        = Inr \<lparr>intensity = [], MonitorCount = [], Normalization = [], normcounts = [],
               binpositionsTotal = [], orthopos = [], Erange = (Emin, Emax)\<rparr>"
    by (simp add: cut1D_def)
next
  assume a: "arg_positions a = (qx, qy, energy) \<and> length qx = length qy
        \<and> shape (arg_q a) \<in> {[2], [2, 1]} \<and> length (elems (arg_q a)) = 2"
    and e: "count_true (insideEnergy energy E1 E2) = 0"
  show "fst (cut1DE a E1 E2 width minPixel)
           = Inl (AttributeError (Msg ''No points are within the provided energy limits.''))"
    using a e by (auto simp: cut1DE_def cut1DE_body_def)
next
  assume a: "arg_positions a = (qx, qy, energy) \<and> length qx = length qy
        \<and> shape (arg_q a) \<in> {[2], [2, 1]} \<and> length (elems (arg_q a)) = 2"
    and e: "count_true (insideEnergy energy E1 E2) \<noteq> 0
           \<and> count_true (map (\<lambda>d. d < width) (distToQ (qx, qy, energy) (arg_q a))) = 0"
  show "fst (cut1DE a E1 E2 width minPixel)
           = Inl (AttributeError (Msg ''No points are inside selected q range.''))"
    using a e by (auto simp: cut1DE_def cut1DE_body_def distToQ_def)
next
  assume a: "arg_positions a = (qx, qy, energy) \<and> length qx = length qy
        \<and> shape (arg_q a) \<in> {[2], [2, 1]} \<and> length (elems (arg_q a)) = 2"
    and e: "count_true (insideEnergy energy E1 E2) \<noteq> 0
           \<and> count_true (map (\<lambda>d. d < width) (distToQ (qx, qy, energy) (arg_q a))) \<noteq> 0
           \<and> length energy = length qx
           \<and> count_true (map (\<lambda>(b, c). b \<and> c)
                 (zip (map (\<lambda>d. d < width) (distToQ (qx, qy, energy) (arg_q a)))
                      (insideEnergy energy E1 E2))) = 0"
  show "fst (cut1DE a E1 E2 width minPixel)
           = Inr \<lparr>intensityE = [], MonitorCountE = [], NormalizationE = [],
                  normcountsE = [], binsE = [[E1, E2]]\<rparr>"
    using a e
    by (auto simp: cut1DE_def cut1DE_body_def distToQ_def Let_def mask_select_all_False
        binEdges_Nil insideEnergy_def)
qed

theorem empty_cut_results_witness:
  "cut1D ([0], [0], [0]) [1] [1] [1] (0, 0) (1, 0) (1/10) (1/100) 5 7 True
     = Inr \<lparr>intensity = [], MonitorCount = [], Normalization = [], normcounts = [],
            binpositionsTotal = [], orthopos = [], Erange = (5, 7)\<rparr>
   \<and> fst (cut1DE \<lparr>arg_positions = ([0], [0], [0]), arg_I = [1], arg_Norm = [1],
                   arg_Monitor = [1], arg_q = \<lparr>shape = [2], elems = [0, 0]\<rparr>\<rparr> 5 7 (1/10) (1/100))
       = Inl (AttributeError (Msg ''No points are within the provided energy limits.''))
   \<and> fst (cut1DE \<lparr>arg_positions = ([1], [0], [6]), arg_I = [1], arg_Norm = [1],
                   arg_Monitor = [1], arg_q = \<lparr>shape = [2, 1], elems = [0, 0]\<rparr>\<rparr> 5 7 (1/10) (1/100))
       = Inl (AttributeError (Msg ''No points are inside selected q range.''))
   \<and> fst (cut1DE \<lparr>arg_positions = ([0, 1], [0, 0], [0, 6]), arg_I = [1, 1], arg_Norm = [1, 1],
                   arg_Monitor = [1, 1], arg_q = \<lparr>shape = [2, 1], elems = [0, 0]\<rparr>\<rparr>
            5 7 (1/10) (1/100))
       = Inr \<lparr>intensityE = [], MonitorCountE = [], NormalizationE = [],
              normcountsE = [], binsE = [[5, 7]]\<rparr>"
proof (intro conjI)
  show "cut1D ([0], [0], [0]) [1] [1] [1] (0, 0) (1, 0) (1/10) (1/100) 5 7 True
     = Inr \<lparr>intensity = [], MonitorCount = [], Normalization = [], normcounts = [],
            binpositionsTotal = [], orthopos = [], Erange = (5, 7)\<rparr>"
    using empty_cut_results [of "[0]" 5 7 "[0]" "[0]" "[1]" "[1]" "[1]" "(0, 0)" "(1, 0)"
        "1/10" "1/100" True]
    by (simp add: insideEnergy_def count_true_def)
next
  show "fst (cut1DE \<lparr>arg_positions = ([0], [0], [0]), arg_I = [1], arg_Norm = [1],
                   arg_Monitor = [1], arg_q = \<lparr>shape = [2], elems = [0, 0]\<rparr>\<rparr> 5 7 (1/10) (1/100))
       = Inl (AttributeError (Msg ''No points are within the provided energy limits.''))"
    using empty_cut_results [where energy = "[0]" and qx = "[0]" and qy = "[0]" and ?E1.0 = 5
        and ?E2.0 = 7 and width = "1/10" and minPixel = "1/100"
        and a = "\<lparr>arg_positions = ([0], [0], [0]), arg_I = [1], arg_Norm = [1],
                   arg_Monitor = [1], arg_q = \<lparr>shape = [2], elems = [0, 0]\<rparr>\<rparr>"]
    by (simp add: insideEnergy_def count_true_def)
next
  show "fst (cut1DE \<lparr>arg_positions = ([1], [0], [6]), arg_I = [1], arg_Norm = [1],
                   arg_Monitor = [1], arg_q = \<lparr>shape = [2, 1], elems = [0, 0]\<rparr>\<rparr> 5 7 (1/10) (1/100))
       = Inl (AttributeError (Msg ''No points are inside selected q range.''))"
    using empty_cut_results [where energy = "[6]" and qx = "[1]" and qy = "[0]" and ?E1.0 = 5
        and ?E2.0 = 7 and width = "1/10" and minPixel = "1/100"
        and a = "\<lparr>arg_positions = ([1], [0], [6]), arg_I = [1], arg_Norm = [1],
                   arg_Monitor = [1], arg_q = \<lparr>shape = [2, 1], elems = [0, 0]\<rparr>\<rparr>"]
    by (simp add: insideEnergy_def count_true_def distToQ_def)
next
  show "fst (cut1DE \<lparr>arg_positions = ([0, 1], [0, 0], [0, 6]), arg_I = [1, 1], arg_Norm = [1, 1],
                   arg_Monitor = [1, 1], arg_q = \<lparr>shape = [2, 1], elems = [0, 0]\<rparr>\<rparr>
            5 7 (1/10) (1/100))
       = Inr \<lparr>intensityE = [], MonitorCountE = [], NormalizationE = [],
              normcountsE = [], binsE = [[5, 7]]\<rparr>"
    using empty_cut_results [where energy = "[0, 6]" and qx = "[0, 1]" and qy = "[0, 0]"
        and ?E1.0 = 5 and ?E2.0 = 7 and width = "1/10" and minPixel = "1/100"
        and a = "\<lparr>arg_positions = ([0, 1], [0, 0], [0, 6]), arg_I = [1, 1], arg_Norm = [1, 1],
                   arg_Monitor = [1, 1], arg_q = \<lparr>shape = [2, 1], elems = [0, 0]\<rparr>\<rparr>"]
    by (simp add: insideEnergy_def count_true_def distToQ_def)
qed







section \<open>Bin edges and histograms\<close>

lemma monotonic_sorted: "monotonic xs = sorted xs"
  by (induction xs rule: monotonic.induct) (auto intro: order_trans)

lemma walk_gaps_bounds:
  "0 \<le> t \<Longrightarrow> sorted xs \<Longrightarrow> m \<in> set (walk_gaps t e xs) \<Longrightarrow> e \<le> m \<and> m \<le> last xs"
proof (induction t e xs arbitrary: m rule: walk_gaps.induct)
  case (1 t e x y xs)
  let ?c = "(x + y) / 2"
  from "1.prems" have xy: "x \<le> y" and s: "sorted (y # xs)" by simp_all
  show ?case
  proof (cases "?c - e \<ge> t")
    case True
    with "1.prems" have "m = ?c \<or> m \<in> set (walk_gaps t ?c (y # xs))"
      by (simp add: Let_def)
    then show ?thesis
    proof
      assume "m = ?c"
      moreover have "y \<le> last (y # xs)" using s by (metis last_in_set list.simps(3) set_ConsD sorted_simps(2) order_refl)
      moreover have "last (x # y # xs) = last (y # xs)" by simp
      ultimately show ?thesis using True "1.prems"(1) xy by argo
    next
      assume "m \<in> set (walk_gaps t ?c (y # xs))"
      moreover have "last (x # y # xs) = last (y # xs)" by simp
      ultimately show ?thesis
        using "1.IH"(1) [OF refl True "1.prems"(1) s, of m] True "1.prems"(1) by linarith
    qed
  next
    case False
    with "1.prems" have "m \<in> set (walk_gaps t e (y # xs))" by (simp add: Let_def)
    moreover have "last (x # y # xs) = last (y # xs)" by simp
    ultimately show ?thesis using "1.IH"(2) [OF refl False "1.prems"(1) s, of m] by simp
  qed
qed auto

lemma walk_gaps_sorted:
  "0 \<le> t \<Longrightarrow> sorted xs \<Longrightarrow> sorted (e # walk_gaps t e xs)"
proof (induction t e xs rule: walk_gaps.induct)
  case (1 t e x y xs)
  from "1.prems" have s: "sorted (y # xs)" by simp
  let ?c = "(x + y) / 2"
  show ?case
  proof (cases "?c - e \<ge> t")
    case True
    from "1.IH"(1) [OF refl True "1.prems"(1) s] have "sorted (?c # walk_gaps t ?c (y # xs))" .
    moreover have "e \<le> ?c" using True "1.prems"(1) by linarith
    ultimately show ?thesis using True by (auto simp: Let_def)
  next
    case False
    from "1.IH"(2) [OF refl False "1.prems"(1) s] show ?thesis using False by (simp add: Let_def)
  qed
qed auto

lemma binEdges_sorted:
  assumes "0 \<le> t" shows "sorted (binEdges xs t)"
proof (cases "sort xs")
  case Nil
  then show ?thesis by (simp add: binEdges_def)
next
  case (Cons x ys)
  have s: "sorted (x # ys)" using Cons by (metis sorted_sort)
  let ?e = "x - t / 2"
  have 1: "sorted (?e # walk_gaps t ?e (x # ys))" using walk_gaps_sorted [OF assms s] .
  have 2: "\<forall>m \<in> set (?e # walk_gaps t ?e (x # ys)). m \<le> last (x # ys) + t / 2"
  proof
    fix m assume "m \<in> set (?e # walk_gaps t ?e (x # ys))"
    then consider "m = ?e" | "m \<in> set (walk_gaps t ?e (x # ys))" by auto
    then show "m \<le> last (x # ys) + t / 2"
    proof cases
      case 1
      have "x \<le> last (x # ys)" using s by (metis last_in_set list.simps(3) set_ConsD sorted_simps(2) order_refl)
      then show ?thesis using 1 assms by linarith
    next
      case 2
      from walk_gaps_bounds [OF assms s 2] assms show ?thesis by linarith
    qed
  qed
  have "sorted ((?e # walk_gaps t ?e (x # ys)) @ [last (x # ys) + t / 2])"
    using 1 2 by (simp add: sorted_append del: sorted_simps)
  then show ?thesis using Cons by (simp add: binEdges_def)
qed

lemma binEdges_covers:
  assumes "0 \<le> t" "x \<in> set xs"
  shows "2 \<le> length (binEdges xs t) \<and> hd (binEdges xs t) \<le> x \<and> x \<le> last (binEdges xs t)"
proof (cases "sort xs")
  case Nil
  then show ?thesis using assms by (metis empty_iff empty_set set_sort)
next
  case (Cons y ys)
  have s: "sorted (y # ys)" using Cons by (metis sorted_sort)
  have mem: "x \<in> set (y # ys)" using assms Cons by (metis set_sort)
  have lo: "y \<le> x" using s mem by auto
  have hi: "x \<le> last (y # ys)" using s mem
    by (metis in_set_conv_nth last_conv_nth length_pos_if_in_set less_numeral_extra(3) list.size(3) sorted_nth_mono Suc_pred' less_Suc_eq_le order_refl)
  show ?thesis using Cons lo hi assms by (simp add: binEdges_def)
qed

lemma bin_index_inside:
  assumes "2 \<le> length es" "hd es \<le> x" "x \<le> last es"
  shows "\<exists>i. bin_index es x = Some i"
proof -
  obtain e es' where es: "es = e # es'" "es' \<noteq> []" using assms(1) by (cases es; cases "tl es") auto
  let ?k = "length (filter (\<lambda>e. e \<le> x) es)"
  have k1: "1 \<le> ?k" using es assms(2) by simp
  have kl: "?k \<le> length es" by (rule length_filter_le)
  show ?thesis
  proof (cases "x = last es")
    case True
    have "?k = 1 + length (filter (\<lambda>e. e \<le> x) es')" using es assms(2) by simp
    moreover have "last es' \<in> set (filter (\<lambda>e. e \<le> x) es')" using True es by simp
    then have "0 < length (filter (\<lambda>e. e \<le> x) es')" by (metis length_pos_if_in_set)
    ultimately have "2 \<le> ?k" by linarith
    then show ?thesis using True kl es by (auto simp: bin_index_def Let_def less_Suc_eq_le)
  next
    case False
    then have "\<not> last es \<le> x" using assms(3) by simp
    then have "last es \<notin> set (filter (\<lambda>e. e \<le> x) es)" by simp
    moreover have "last es \<in> set es" using es by simp
    ultimately have "filter (\<lambda>e. e \<le> x) es \<noteq> es" by metis
    then have "?k < length es" using kl
      by (metis le_neq_implies_less length_filter_less filter_True length_filter_le nat_less_le filter_id_conv)
    then show ?thesis using False k1 by (auto simp: bin_index_def Let_def)
  qed
qed

lemma bin_index_less: "bin_index es x = Some i \<Longrightarrow> i < length es - 1"
  by (auto simp: bin_index_def Let_def split: if_splits)

lemma sum_indicator_nat:
  "(\<Sum>i = 0..<(n::nat). if a = Some i then (w::real) else 0) = (if \<exists>i<n. a = Some i then w else 0)"
proof (cases a)
  case None
  then show ?thesis by simp
next
  case (Some k)
  have "(\<Sum>i = 0..<n. if k = i then w else 0) = (if k \<in> {0..<n} then w else 0)"
    by (rule sum.delta') simp
  then show ?thesis using Some by auto
qed

lemma if_and_nest: "(if A then (if B then w else z) else z) = (if A \<and> B then w else z)"
  by simp

lemma hist_cell_step:
  "(\<Sum>i = 0..<(n::nat). \<Sum>j = 0..<(m::nat). if a = Some i \<and> b = Some j then (w::real) else 0)
     = (if (\<exists>i<n. a = Some i) \<and> (\<exists>j<m. b = Some j) then w else 0)"
proof -
  have "(\<Sum>i = 0..<n. \<Sum>j = 0..<m. if a = Some i \<and> b = Some j then w else 0)
      = (\<Sum>i = 0..<n. if a = Some i then (\<Sum>j = 0..<m. if b = Some j then w else 0) else 0)"
    by (rule sum.cong) auto
  also have "\<dots> = (\<Sum>i = 0..<n. if a = Some i then (if \<exists>j<m. b = Some j then w else 0) else 0)"
    by (simp only: sum_indicator_nat)
  also have "\<dots> = (if \<exists>i<n. a = Some i then (if \<exists>j<m. b = Some j then w else 0) else 0)"
    by (rule sum_indicator_nat)
  also have "\<dots> = (if (\<exists>i<n. a = Some i) \<and> (\<exists>j<m. b = Some j) then w else 0)"
    by (rule if_and_nest)
  finally show ?thesis .
qed

lemma sum_filter_Cons:
  "sum_list (map snd (filter P ((p, w) # zs)))
     = (if P (p, w) then (w::real) else 0) + sum_list (map snd (filter P zs))"
  by simp

lemma hist2d_total:
  "sum_list (map (\<lambda>i. sum_list (map (\<lambda>j. sum_list (map snd
       (filter (\<lambda>(p, w). f p = Some i \<and> g p = Some j) zs))) [0..<m])) [0..<n])
   = sum_list (map snd (filter (\<lambda>(p, w::real). (\<exists>i<n. f p = Some i) \<and> (\<exists>j<m. g p = Some j)) zs))"
proof (induction zs)
  case Nil
  then show ?case by (simp add: interv_sum_list_conv_sum_set_nat)
next
  case (Cons z zs)
  obtain p w where z: "z = (p, w)" by (cases z)
  let ?S = "\<lambda>i j. sum_list (map snd (filter (\<lambda>(p, w). f p = Some i \<and> g p = Some j) zs))"
  let ?C = "\<lambda>(p, w::real). (\<exists>i<n. f p = Some i) \<and> (\<exists>j<m. g p = Some j)"
  have "sum_list (map (\<lambda>i. sum_list (map (\<lambda>j. sum_list (map snd
       (filter (\<lambda>(p, w). f p = Some i \<and> g p = Some j) (z # zs)))) [0..<m])) [0..<n])
     = (\<Sum>i = 0..<n. \<Sum>j = 0..<m. (if f p = Some i \<and> g p = Some j then w else 0) + ?S i j)"
    by (simp only: z sum_filter_Cons prod.case interv_sum_list_conv_sum_set_nat set_upt)
  also have "\<dots> = (\<Sum>i = 0..<n. \<Sum>j = 0..<m. if f p = Some i \<and> g p = Some j then w else 0)
      + (\<Sum>i = 0..<n. \<Sum>j = 0..<m. ?S i j)"
    by (simp only: sum.distrib)
  also have "(\<Sum>i = 0..<n. \<Sum>j = 0..<m. ?S i j) = sum_list (map snd (filter ?C zs))"
    using Cons.IH by (simp only: interv_sum_list_conv_sum_set_nat set_upt)
  also have "(\<Sum>i = 0..<n. \<Sum>j = 0..<m. if f p = Some i \<and> g p = Some j then w else 0)
      = (if ?C (p, w) then w else 0)"
    by (simp only: hist_cell_step prod.case)
  also have "(if ?C (p, w) then w else 0) + sum_list (map snd (filter ?C zs))
      = sum_list (map snd (filter ?C (z # zs)))"
    by (simp only: z sum_filter_Cons)
  finally show ?case .
qed

text \<open>Every sample inside both edge ranges: the histogram adds up to the weights.\<close>

lemma histogram2d_conserves:
  assumes len: "length weights = length sample"
    and s0: "sorted bins0" and s1: "sorted bins1"
    and l0: "2 \<le> length bins0" and l1: "2 \<le> length bins1"
    and in0: "\<And>p. p \<in> set sample \<Longrightarrow> hd bins0 \<le> fst p \<and> fst p \<le> last bins0"
    and in1: "\<And>p. p \<in> set sample \<Longrightarrow> hd bins1 \<le> snd p \<and> snd p \<le> last bins1"
  shows "\<exists>h. histogram2d sample bins0 bins1 weights = Inr h
           \<and> sum_list (map sum_list h) = sum_list weights"
proof -
  let ?C = "\<lambda>(p, w::real). (\<exists>i<length bins0 - 1. bin_index bins0 (fst p) = Some i)
                           \<and> (\<exists>j<length bins1 - 1. bin_index bins1 (snd p) = Some j)"
  let ?h = "map (\<lambda>i. map (\<lambda>j. sum_list (map snd
                  (filter (\<lambda>(p, w). bin_index bins0 (fst p) = Some i
                                     \<and> bin_index bins1 (snd p) = Some j) (zip sample weights))))
                  [0..<length bins1 - 1])
                [0..<length bins0 - 1]"
  have h: "histogram2d sample bins0 bins1 weights = Inr ?h"
    using len s0 s1 by (simp add: histogram2d_def monotonic_sorted)
  have all: "\<forall>z \<in> set (zip sample weights). ?C z"
  proof
    fix z assume z: "z \<in> set (zip sample weights)"
    obtain p w where pw: "z = (p, w)" by (cases z)
    have p: "p \<in> set sample" using z pw by (auto dest: set_zip_leftD)
    obtain i where i: "bin_index bins0 (fst p) = Some i"
      using bin_index_inside [OF l0] in0 [OF p] by blast
    obtain j where j: "bin_index bins1 (snd p) = Some j"
      using bin_index_inside [OF l1] in1 [OF p] by blast
    have "(\<exists>i<length bins0 - 1. bin_index bins0 (fst p) = Some i)
            \<and> (\<exists>j<length bins1 - 1. bin_index bins1 (snd p) = Some j)"
      using i j bin_index_less [OF i] bin_index_less [OF j] by blast
    then show "?C z" by (simp only: pw prod.case)
  qed
  have "sum_list (map sum_list ?h) = sum_list (map snd (filter ?C (zip sample weights)))"
    using hist2d_total [of "\<lambda>p. bin_index bins0 (fst p)" "\<lambda>p. bin_index bins1 (snd p)"
        "zip sample weights" "length bins1 - 1" "length bins0 - 1"]
    by (simp only: map_map comp_def)
  also have "filter ?C (zip sample weights) = zip sample weights"
    using all by (simp only: filter_id_conv)
  also have "sum_list (map snd (zip sample weights)) = sum_list weights" using len by simp
  finally show ?thesis using h by blast
qed

section \<open>Conservation in an extended cut\<close>

lemma mask_select_Nil [simp]: "mask_select [] xs = []" "mask_select msk [] = []"
  by (simp_all add: mask_select_def)

lemma mask_select_Cons [simp]:
  "mask_select (b # msk) (x # xs) = (if b then x # mask_select msk xs else mask_select msk xs)"
  by (simp add: mask_select_def)

lemma length_mask_select:
  "length msk = length xs \<Longrightarrow> length (mask_select msk xs) = count_true msk"
  by (induction msk xs rule: list_induct2) (simp_all add: count_true_def)

lemma zip_mask_select:
  "length msk = length xs \<Longrightarrow> length xs = length ys \<Longrightarrow>
     zip (mask_select msk xs) (mask_select msk ys) = mask_select msk (zip xs ys)"
  by (induction msk xs ys rule: list_induct3) simp_all

lemma set_mask_select:
  "z \<in> set (mask_select msk xs) \<Longrightarrow> \<exists>i. i < length xs \<and> i < length msk \<and> msk ! i \<and> z = xs ! i"
  by (auto simp: mask_select_def set_zip)

lemma mask_select_map_all:
  "(\<And>x. x \<in> set xs \<Longrightarrow> P x) \<Longrightarrow> mask_select (map P xs) xs = xs"
  by (induction xs) simp_all

lemma dirLength_zero_iff: "dirLength q1 q2 = 0 \<longleftrightarrow> q1 = q2"
  by (cases q1; cases q2) (auto simp: dirLength_def sum_power2_eq_zero_iff)

text \<open>The part of cut1D after the energy filter, for an extended cut with all points in the width.\<close>

lemma cut1D_extended_all_inside:
  assumes t: "0 < minPixel" and q: "q1 \<noteq> q2"
    and lqx: "length qx = length energy" and lqy: "length qy = length energy"
    and lI: "length I = length energy" and lN: "length Norm = length energy"
    and lM: "length Monitor = length energy"
    and ne: "count_true (insideEnergy energy Emin Emax) \<noteq> 0"
    and w: "\<And>p. p \<in> set (map (project q1 q2) (zip (mask_select (insideEnergy energy Emin Emax) qx)
                                (mask_select (insideEnergy energy Emin Emax) qy)))
              \<Longrightarrow> - width / 2 < snd p \<and> snd p < width / 2"
  shows "\<exists>r. cut1D (qx, qy, energy) I Norm Monitor q1 q2 width minPixel Emin Emax True = Inr r
           \<and> sum_list (map sum_list (intensity r))
               = sum_list (mask_select (insideEnergy energy Emin Emax) I)
           \<and> sum_list (map sum_list (MonitorCount r))
               = sum_list (mask_select (insideEnergy energy Emin Emax) Monitor)
           \<and> sum_list (map sum_list (Normalization r))
               = sum_list (mask_select (insideEnergy energy Emin Emax) Norm)
           \<and> sum_list (map sum_list (normcounts r))
               = real (count_true (insideEnergy energy Emin Emax))"
proof -
  let ?m = "insideEnergy energy Emin Emax"
  let ?px = "mask_select ?m qx" and ?py = "mask_select ?m qy"
  let ?propos = "map (project q1 q2) (zip ?px ?py)"
  let ?ob = "[- width / 2, width / 2]"
  let ?lb = "binEdges (map fst ?propos) minPixel"
  have lm: "length ?m = length energy" by (simp add: insideEnergy_def)
  have lpx: "length ?px = count_true ?m" and lpy: "length ?py = count_true ?m"
    using lm lqx lqy by (simp_all add: length_mask_select)
  have lp: "length ?propos = count_true ?m" using lpx lpy by simp
  then have pne: "?propos \<noteq> []" using ne by auto
  then obtain p0 where p0: "p0 \<in> set ?propos" by (meson last_in_set)
  have wpos: "0 < width" using w [OF p0] by linarith
  have d: "dirLength q1 q2 \<noteq> 0" using q by (simp add: dirLength_zero_iff)
  have cp: "cut_propos q1 q2 True (zip ?px ?py) = ?propos" by (simp add: cut_propos_def)
  have sel: "mask_select (map (\<lambda>p. snd p < ?ob ! 1 \<and> snd p > ?ob ! 0) ?propos) ?propos = ?propos"
    by (rule mask_select_map_all) (use w in auto)
  have lb: "cut_lenbins width minPixel ?propos = ?lb"
    using sel by (simp add: cut_lenbins_def Let_def)
  have cover: "\<And>p. p \<in> set ?propos \<Longrightarrow> hd ?lb \<le> fst p \<and> fst p \<le> last ?lb"
    using binEdges_covers [of minPixel _ "map fst ?propos"] t by auto
  have l2: "2 \<le> length ?lb"
    using binEdges_covers [of minPixel "fst p0" "map fst ?propos"] t p0 by auto
  have slb: "sorted ?lb" using binEdges_sorted [of minPixel] t by simp
  have sob: "sorted ?ob" using wpos by simp
  have cob: "\<And>p. p \<in> set ?propos \<Longrightarrow> hd ?ob \<le> snd p \<and> snd p \<le> last ?ob"
    using w by (simp del: set_map) (metis less_eq_real_def)
  have cons: "\<And>ws. length ws = length ?propos \<Longrightarrow>
      \<exists>h. histogram2d ?propos ?lb ?ob ws = Inr h \<and> sum_list (map sum_list h) = sum_list ws"
    by (rule histogram2d_conserves [OF _ slb sob l2 _ cover cob]) simp_all
  have cw: "\<And>W. length W = length energy \<Longrightarrow>
      cut_weights q1 q2 True ?m (zip ?px ?py) W = Inr (mask_select ?m W)"
    using lm by (simp add: cut_weights_def np_index_def bind_err_def)
  have lw: "\<And>W. length W = length energy \<Longrightarrow> length (mask_select ?m W) = length ?propos"
    using lm lp by (simp add: length_mask_select)
  obtain nc where nc: "histogram2d ?propos ?lb ?ob (replicate (length ?propos) 1) = Inr nc"
    "sum_list (map sum_list nc) = sum_list (replicate (length ?propos) (1::real))"
    using cons [of "replicate (length ?propos) 1"] by auto
  obtain hI where hI: "histogram2d ?propos ?lb ?ob (mask_select ?m I) = Inr hI"
    "sum_list (map sum_list hI) = sum_list (mask_select ?m I)"
    using cons [OF lw [OF lI]] by auto
  obtain hM where hM: "histogram2d ?propos ?lb ?ob (mask_select ?m Monitor) = Inr hM"
    "sum_list (map sum_list hM) = sum_list (mask_select ?m Monitor)"
    using cons [OF lw [OF lM]] by auto
  obtain hN where hN: "histogram2d ?propos ?lb ?ob (mask_select ?m Norm) = Inr hN"
    "sum_list (map sum_list hN) = sum_list (mask_select ?m Norm)"
    using cons [OF lw [OF lN]] by auto
  have idx: "np_index ?m qx = Inr ?px" "np_index ?m qy = Inr ?py"
    using lm lqx lqy by (simp_all add: np_index_def)
  have lbne: "length ?lb \<noteq> 0" using l2 by linarith
  have "cut1D (qx, qy, energy) I Norm Monitor q1 q2 width minPixel Emin Emax True
      = Inr \<lparr>intensity = hI, MonitorCount = hM, Normalization = hN, normcounts = nc,
             binpositionsTotal = map (\<lambda>l. (l * fst (dirvec q1 q2) + fst q1,
                                             l * snd (dirvec q1 q2) + snd q1,
                                             (Emin + Emax) * 0.5)) ?lb,
             orthopos = map (\<lambda>b. (Some (b * fst (orthovec q1 q2)),
                                      Some (b * snd (orthovec q1 q2)))) ?ob,
             Erange = (Emin, Emax)\<rparr>"
    unfolding cut1D_def prod.case Let_def
    using ne d lbne
    by (simp only: idx bind_err_def sum.case cp lb nc(1) hI(1) hM(1) hN(1)
        cw [OF lI] cw [OF lM] cw [OF lN] if_False)
  moreover have "sum_list (replicate (length ?propos) (1::real)) = real (count_true ?m)"
    using lp by (simp add: sum_list_replicate)
  ultimately show ?thesis using nc(2) hI(2) hM(2) hN(2) by simp
qed

text \<open>
  C2: in a cut with \<open>extend = True\<close>, a positive \<open>minPixel\<close> and distinct end points, in
  which every point inside the energy window lies strictly inside the orthogonal width,
  \<open>cut1D\<close> returns, and the entries of its intensity histogram add up to the sum of the
  intensities of the points inside the energy window: no point is dropped by the bin
  edges along the cut and none is counted twice.
\<close>

theorem cut1D_conservation:
  assumes "0 < minPixel" and "q1 \<noteq> q2"
    and "length qx = length energy" and "length qy = length energy"
    and "length I = length energy" and "length Norm = length energy"
    and "length Monitor = length energy"
    and inside: "\<forall>i<length energy. Emin \<le> energy ! i \<and> energy ! i \<le> Emax \<longrightarrow>
           - width / 2 < snd (project q1 q2 (qx ! i, qy ! i))
           \<and> snd (project q1 q2 (qx ! i, qy ! i)) < width / 2"
  shows "\<exists>r. cut1D (qx, qy, energy) I Norm Monitor q1 q2 width minPixel Emin Emax True = Inr r
           \<and> sum_list (map sum_list (intensity r))
               = sum_list (mask_select (insideEnergy energy Emin Emax) I)"
proof (cases "count_true (insideEnergy energy Emin Emax) = 0")
  case True
  then show ?thesis by (simp add: cut1D_def mask_select_all_False)
next
  case False
  let ?m = "insideEnergy energy Emin Emax"
  have lm: "length ?m = length energy" by (simp add: insideEnergy_def)
  have w: "- width / 2 < snd p \<and> snd p < width / 2"
    if "p \<in> set (map (project q1 q2) (zip (mask_select ?m qx) (mask_select ?m qy)))" for p
  proof -
    from that obtain z where z: "z \<in> set (zip (mask_select ?m qx) (mask_select ?m qy))"
      and p: "p = project q1 q2 z" by auto
    have "zip (mask_select ?m qx) (mask_select ?m qy) = mask_select ?m (zip qx qy)"
      using lm assms(3,4) by (simp add: zip_mask_select)
    with z obtain i where i: "i < length (zip qx qy)" "i < length ?m" "?m ! i"
      and zi: "z = zip qx qy ! i"
      using set_mask_select [of z ?m "zip qx qy"] by auto
    have "z = (qx ! i, qy ! i)" using zi i(1) by simp
    moreover have "Emin \<le> energy ! i \<and> energy ! i \<le> Emax"
      using i(2,3) lm by (simp add: insideEnergy_def)
    ultimately show ?thesis using inside i(2) lm p by auto
  qed
  from cut1D_extended_all_inside [OF assms(1-7) False w]
  show ?thesis by blast
qed

theorem cut1D_conservation_witness:
  "\<exists>r. cut1D ([0, 1], [0, 0], [1, 1]) [3, 4] [1, 1] [1, 1] (0, 0) (1, 0) 1 (1/2) 0 2 True = Inr r
       \<and> sum_list (map sum_list (intensity r)) = 7"
proof -
  have "\<exists>r. cut1D ([0, 1], [0, 0], [1, 1]) [3, 4] [1, 1] [1, 1] (0, 0) (1, 0) 1 (1/2) 0 2 True = Inr r
       \<and> sum_list (map sum_list (intensity r))
           = sum_list (mask_select (insideEnergy [1, 1] 0 2) [3, 4])"
    by (rule cut1D_conservation)
       (simp_all add: project_def dirvec_def orthovec_def dirLength_def less_Suc_eq
          numeral_2_eq_2)
  then show ?thesis by (simp add: insideEnergy_def)
qed

section \<open>What a histogram of a cut adds up to\<close>

lemma sum_filter_as_if:
  "sum_list (map snd (filter (\<lambda>(p, w). C p) zs))
     = sum_list (map (\<lambda>(p, w::real). if C p then w else 0) zs)"
  by (induction zs) auto

lemma zip_mask_select_map:
  "length ws = length xs \<Longrightarrow>
     zip (mask_select (map Q xs) xs) (mask_select (map Q xs) ws)
       = filter (\<lambda>(p, w). Q p) (zip xs ws)"
  by (induction ws xs rule: list_induct2) simp_all

lemma sum_mask_select:
  "length msk = length zs \<Longrightarrow>
     sum_list (map f (mask_select msk zs))
       = (\<Sum>i<length zs. if msk ! i then (f (zs ! i) :: real) else 0)"
proof (induction msk zs rule: list_induct2)
  case Nil
  then show ?case by simp
next
  case (Cons b msk z zs)
  then show ?case by (simp add: sum.lessThan_Suc_shift del: sum.lessThan_Suc cong: if_cong)
qed

lemma sum_update_nth:
  assumes "k < n" "n \<le> length xs"
  shows "(\<Sum>i<n. if A i then (xs[k := v]) ! i else (0::real))
           = (\<Sum>i<n. if A i then xs ! i else 0) + (if A k then v - xs ! k else 0)"
proof -
  have "(\<Sum>i<n. if A i then (xs[k := v]) ! i else 0)
      = (\<Sum>i<n. (if A i then xs ! i else 0) + (if k = i then (if A k then v - xs ! k else 0) else 0))"
    using assms by (intro sum.cong) (auto simp: nth_list_update)
  also have "\<dots> = (\<Sum>i<n. if A i then xs ! i else 0)
      + (\<Sum>i<n. if k = i then (if A k then v - xs ! k else 0) else 0)"
    by (rule sum.distrib)
  also have "(\<Sum>i<n. if k = i then (if A k then v - xs ! k else 0) else 0)
      = (if k \<in> {..<n} then (if A k then v - xs ! k else 0) else 0)"
    by (rule sum.delta') simp
  finally show ?thesis using assms by simp
qed

lemma mask_select_map_filter: "mask_select (map P xs) xs = filter P xs"
  by (induction xs) simp_all

lemma nth_in_mask_select:
  "length msk = length xs \<Longrightarrow> i < length xs \<Longrightarrow> msk ! i \<Longrightarrow> xs ! i \<in> set (mask_select msk xs)"
proof (induction msk xs arbitrary: i rule: list_induct2)
  case Nil
  then show ?case by simp
next
  case (Cons b msk x xs)
  then show ?case by (cases i) auto
qed

text \<open>The samples and weights of one histogram of cut1D, as one filtered list of pairs.\<close>

lemma cut_sample_weights:
  assumes "length W = length energy" "length qx = length energy" "length qy = length energy"
  shows "\<exists>wW. cut_weights q1 q2 extend' (insideEnergy energy Emin Emax)
                 (zip (mask_select (insideEnergy energy Emin Emax) qx)
                      (mask_select (insideEnergy energy Emin Emax) qy)) W = Inr wW
     \<and> length wW = length (cut_propos q1 q2 extend'
                 (zip (mask_select (insideEnergy energy Emin Emax) qx)
                      (mask_select (insideEnergy energy Emin Emax) qy)))
     \<and> zip (cut_propos q1 q2 extend'
                 (zip (mask_select (insideEnergy energy Emin Emax) qx)
                      (mask_select (insideEnergy energy Emin Emax) qy))) wW
         = filter (\<lambda>(p, w). extend' \<or> (fst p > 0 \<and> fst p < dirLength q1 q2))
             (map (\<lambda>(z, w). (project q1 q2 z, w))
                (mask_select (insideEnergy energy Emin Emax) (zip (zip qx qy) W)))"
proof -
  let ?m = "insideEnergy energy Emin Emax"
  let ?P0 = "map (project q1 q2) (zip (mask_select ?m qx) (mask_select ?m qy))"
  let ?Q = "\<lambda>p::vec2. fst p > 0 \<and> fst p < dirLength q1 q2"
  have lm: "length ?m = length energy" by (simp add: insideEnergy_def)
  have lw: "length (mask_select ?m W) = length ?P0"
    using lm assms by (simp add: length_mask_select)
  have z: "zip ?P0 (mask_select ?m W)
      = map (\<lambda>(z, w). (project q1 q2 z, w)) (mask_select ?m (zip (zip qx qy) W))"
    using lm assms by (simp add: zip_map1 zip_mask_select)
  show ?thesis
  proof (cases extend')
    case True
    have "cut_weights q1 q2 extend' ?m (zip (mask_select ?m qx) (mask_select ?m qy)) W
        = Inr (mask_select ?m W)"
      using True lm assms by (simp add: cut_weights_def np_index_def bind_err_def)
    moreover have "cut_propos q1 q2 extend' (zip (mask_select ?m qx) (mask_select ?m qy)) = ?P0"
      using True by (simp add: cut_propos_def)
    ultimately show ?thesis using True lw z by simp
  next
    case False
    have "cut_weights q1 q2 extend' ?m (zip (mask_select ?m qx) (mask_select ?m qy)) W
        = Inr (mask_select (map ?Q ?P0) (mask_select ?m W))"
      using False lm assms lw by (simp add: cut_weights_def np_index_def bind_err_def)
    moreover have cp: "cut_propos q1 q2 extend' (zip (mask_select ?m qx) (mask_select ?m qy))
        = mask_select (map ?Q ?P0) ?P0"
      using False by (simp add: cut_propos_def Let_def)
    moreover have "length (mask_select (map ?Q ?P0) (mask_select ?m W))
        = length (mask_select (map ?Q ?P0) ?P0)"
      using lw by (simp add: length_mask_select)
    moreover have "zip (mask_select (map ?Q ?P0) ?P0) (mask_select (map ?Q ?P0) (mask_select ?m W))
        = filter (\<lambda>(p, w). ?Q p) (zip ?P0 (mask_select ?m W))"
      using lw by (rule zip_mask_select_map)
    ultimately show ?thesis using False z by simp
  qed
qed

lemma bin_index_some_less:
  "(\<exists>i<length b - 1. bin_index b x = Some i) = (\<exists>i. bin_index b x = Some i)"
  using bin_index_less [of b x] by auto

lemma histogram2d_total:
  assumes "length ws = length sample" "sorted b0" "sorted b1"
  shows "\<exists>h. histogram2d sample b0 b1 ws = Inr h
     \<and> sum_list (map sum_list h)
         = sum_list (map (\<lambda>(p, w). if (\<exists>i. bin_index b0 (fst p) = Some i)
                                        \<and> (\<exists>j. bin_index b1 (snd p) = Some j) then w else 0)
             (zip sample ws))"
proof -
  let ?h = "map (\<lambda>i. map (\<lambda>j. sum_list (map snd
                  (filter (\<lambda>(p, w). bin_index b0 (fst p) = Some i
                                     \<and> bin_index b1 (snd p) = Some j) (zip sample ws))))
                  [0..<length b1 - 1])
                [0..<length b0 - 1]"
  have h: "histogram2d sample b0 b1 ws = Inr ?h"
    using assms by (simp add: histogram2d_def monotonic_sorted)
  have "sum_list (map sum_list ?h)
      = sum_list (map snd (filter (\<lambda>(p, w). (\<exists>i<length b0 - 1. bin_index b0 (fst p) = Some i)
                           \<and> (\<exists>j<length b1 - 1. bin_index b1 (snd p) = Some j)) (zip sample ws)))"
    using hist2d_total [of "\<lambda>p. bin_index b0 (fst p)" "\<lambda>p. bin_index b1 (snd p)"
        "zip sample ws" "length b1 - 1" "length b0 - 1"]
    by (simp only: map_map comp_def)
  also have "\<dots> = sum_list (map snd (filter (\<lambda>(p, w). (\<exists>i. bin_index b0 (fst p) = Some i)
                           \<and> (\<exists>j. bin_index b1 (snd p) = Some j)) (zip sample ws)))"
    by (simp only: bin_index_some_less)
  also have "\<dots> = sum_list (map (\<lambda>(p, w). if (\<exists>i. bin_index b0 (fst p) = Some i)
                           \<and> (\<exists>j. bin_index b1 (snd p) = Some j) then w else 0) (zip sample ws))"
    by (rule sum_filter_as_if)
  finally show ?thesis using h by blast
qed

lemma sum_if_filter:
  "sum_list (map (\<lambda>(p, w). if C p then w else 0) (filter (\<lambda>(p, w). F p) zs))
     = sum_list (map (\<lambda>(p, w::real). if F p \<and> C p then w else 0) zs)"
  by (induction zs) auto

lemma count_true_zero_nth:
  assumes "count_true msk = 0" "i < length msk" shows "\<not> msk ! i"
proof
  assume "msk ! i"
  moreover have "msk ! i \<in> set msk" using assms(2) by (rule nth_mem)
  ultimately have "msk ! i \<in> set (filter (\<lambda>b. b) msk)" by (simp only: set_filter mem_Collect_eq)
  moreover have "filter (\<lambda>b. b) msk = []" using assms(1) by (simp only: count_true_def length_0_conv)
  ultimately show False by simp
qed

lemma bin_index_Nil: "bin_index [] x = None"
  by (simp add: bin_index_def)

lemma cut_histogram_total:
  fixes qx qy energy W :: "real list" and q1 q2 :: vec2
    and Emin Emax width minPixel :: real and extend' :: bool
  defines "m \<equiv> insideEnergy energy Emin Emax"
  defines "propos \<equiv> cut_propos q1 q2 extend' (zip (mask_select m qx) (mask_select m qy))"
  defines "lb \<equiv> cut_lenbins width minPixel propos"
  defines "G \<equiv> \<lambda>p::vec2. (extend' \<or> (fst p > 0 \<and> fst p < dirLength q1 q2))
                  \<and> (\<exists>i. bin_index lb (fst p) = Some i)
                  \<and> (\<exists>j. bin_index [- width / 2, width / 2] (snd p) = Some j)"
  assumes t: "0 \<le> minPixel" and w: "0 \<le> width"
    and lW: "length W = length energy"
    and lqx: "length qx = length energy" and lqy: "length qy = length energy"
  shows "\<exists>wW h. cut_weights q1 q2 extend' m (zip (mask_select m qx) (mask_select m qy)) W = Inr wW
     \<and> histogram2d propos lb [- width / 2, width / 2] wW = Inr h
     \<and> sum_list (map sum_list h)
         = (\<Sum>i<length energy. if m ! i \<and> G (project q1 q2 (qx ! i, qy ! i)) then W ! i else 0)"
proof -
  let ?ob = "[- width / 2, width / 2]"
  let ?Z = "zip (zip qx qy) W"
  let ?F = "\<lambda>p::vec2. extend' \<or> (fst p > 0 \<and> fst p < dirLength q1 q2)"
  let ?C = "\<lambda>p::vec2. (\<exists>i. bin_index lb (fst p) = Some i) \<and> (\<exists>j. bin_index ?ob (snd p) = Some j)"
  let ?hp = "\<lambda>(z, w::real). (project q1 q2 z, w)"
  have lm: "length m = length energy" by (simp add: m_def insideEnergy_def)
  have lZ: "length ?Z = length energy" using lW lqx lqy by simp
  from cut_sample_weights [OF lW lqx lqy, of q1 q2 extend' Emin Emax]
  obtain wW where cw: "cut_weights q1 q2 extend' m (zip (mask_select m qx) (mask_select m qy)) W
        = Inr wW"
    and lw: "length wW = length propos"
    and z: "zip propos wW = filter (\<lambda>(p, w). ?F p) (map ?hp (mask_select m ?Z))"
    unfolding m_def propos_def by blast
  have slb: "sorted lb" using binEdges_sorted [OF t] by (simp add: lb_def cut_lenbins_def Let_def)
  have sob: "sorted ?ob" using w by simp
  from histogram2d_total [OF lw slb sob]
  obtain h where h: "histogram2d propos lb ?ob wW = Inr h"
    and th: "sum_list (map sum_list h)
       = sum_list (map (\<lambda>(p, w). if ?C p then w else 0) (zip propos wW))"
    by blast
  have "sum_list (map sum_list h)
      = sum_list (map (\<lambda>(p, w). if ?C p then w else 0)
          (filter (\<lambda>(p, w). ?F p) (map ?hp (mask_select m ?Z))))"
    using th by (simp only: z)
  also have "\<dots> = sum_list (map (\<lambda>(p, w). if ?F p \<and> ?C p then w else 0)
          (map ?hp (mask_select m ?Z)))"
    by (rule sum_if_filter)
  also have "\<dots> = sum_list (map (\<lambda>(z, w). if G (project q1 q2 z) then w else 0)
          (mask_select m ?Z))"
    by (simp add: G_def comp_def case_prod_unfold cong: if_cong)
  also have "\<dots> = (\<Sum>i<length ?Z. if m ! i
        then (case ?Z ! i of (z, w) \<Rightarrow> if G (project q1 q2 z) then w else 0) else 0)"
    using lm lZ by (intro sum_mask_select) simp
  also have "\<dots> = (\<Sum>i<length energy. if m ! i \<and> G (project q1 q2 (qx ! i, qy ! i))
        then W ! i else 0)"
    unfolding lZ using lW lqx lqy by (intro sum.cong) auto
  finally show ?thesis using cw h by blast
qed

lemma histogram2d_length:
  "histogram2d sample b0 b1 ws = Inr h \<Longrightarrow> length h = length b0 - 1"
  by (auto simp: histogram2d_def split: if_splits)

lemma cut1D_histograms:
  fixes qx qy energy :: "real list" and q1 q2 :: vec2
    and Emin Emax width minPixel :: real and extend' :: bool
  defines "m \<equiv> insideEnergy energy Emin Emax"
  defines "propos \<equiv> cut_propos q1 q2 extend' (zip (mask_select m qx) (mask_select m qy))"
  defines "lb \<equiv> cut_lenbins width minPixel propos"
  assumes lqx: "length qx = length energy" and lqy: "length qy = length energy"
    and ne: "count_true m \<noteq> 0" and d: "dirLength q1 q2 \<noteq> 0" and lbne: "length lb \<noteq> 0"
    and nc: "histogram2d propos lb [- width / 2, width / 2] (replicate (length propos) 1) = Inr nc"
    and wI: "cut_weights q1 q2 extend' m (zip (mask_select m qx) (mask_select m qy)) I = Inr wI"
    and hI: "histogram2d propos lb [- width / 2, width / 2] wI = Inr hI"
    and wM: "cut_weights q1 q2 extend' m (zip (mask_select m qx) (mask_select m qy)) Monitor = Inr wM"
    and hM: "histogram2d propos lb [- width / 2, width / 2] wM = Inr hM"
    and wN: "cut_weights q1 q2 extend' m (zip (mask_select m qx) (mask_select m qy)) Norm = Inr wN"
    and hN: "histogram2d propos lb [- width / 2, width / 2] wN = Inr hN"
  shows "\<exists>r. cut1D (qx, qy, energy) I Norm Monitor q1 q2 width minPixel Emin Emax extend' = Inr r
           \<and> intensity r = hI \<and> MonitorCount r = hM \<and> Normalization r = hN
           \<and> normcounts r = nc"
proof -
  have lm: "length m = length energy" by (simp add: m_def insideEnergy_def)
  have idx: "np_index m qx = Inr (mask_select m qx)" "np_index m qy = Inr (mask_select m qy)"
    using lm lqx lqy by (simp_all add: np_index_def)
  have "cut1D (qx, qy, energy) I Norm Monitor q1 q2 width minPixel Emin Emax extend'
      = Inr \<lparr>intensity = hI, MonitorCount = hM, Normalization = hN, normcounts = nc,
             binpositionsTotal = map (\<lambda>l. (l * fst (dirvec q1 q2) + fst q1,
                                             l * snd (dirvec q1 q2) + snd q1,
                                             (Emin + Emax) * 0.5)) lb,
             orthopos = map (\<lambda>b. (Some (b * fst (orthovec q1 q2)),
                                      Some (b * snd (orthovec q1 q2)))) [- width / 2, width / 2],
             Erange = (Emin, Emax)\<rparr>"
    unfolding cut1D_def prod.case Let_def
    using ne d lbne
    by (simp only: m_def [symmetric] idx bind_err_def sum.case propos_def [symmetric]
        lb_def [symmetric] nc hI hM hN wI wM wN if_False)
  then show ?thesis by simp
qed

lemma cut1D_counts_point:
  fixes qx qy energy I Norm Monitor :: "real list" and q1 q2 :: vec2
  assumes t: "0 < minPixel" and q: "q1 \<noteq> q2"
    and lqx: "length qx = length energy" and lqy: "length qy = length energy"
    and lI: "length I = length energy" and lN: "length Norm = length energy"
    and lM: "length Monitor = length energy"
    and k: "k < length energy" and kE: "Emin \<le> energy ! k" "energy ! k \<le> Emax"
    and inw: "- width / 2 < snd (project q1 q2 (qx ! k, qy ! k))"
             "snd (project q1 q2 (qx ! k, qy ! k)) < width / 2"
    and inq: "extend' \<or> (0 < fst (project q1 q2 (qx ! k, qy ! k))
                          \<and> fst (project q1 q2 (qx ! k, qy ! k)) < dirLength q1 q2)"
  shows "\<exists>r r'. cut1D (qx, qy, energy) I Norm Monitor q1 q2 width minPixel Emin Emax extend' = Inr r
          \<and> intensity r \<noteq> []
          \<and> cut1D (qx, qy, energy) (I[k := I ! k + dI]) (Norm[k := Norm ! k + dN])
                (Monitor[k := Monitor ! k + dM]) q1 q2 width minPixel Emin Emax extend' = Inr r'
          \<and> sum_list (map sum_list (intensity r')) = sum_list (map sum_list (intensity r)) + dI
          \<and> sum_list (map sum_list (MonitorCount r'))
               = sum_list (map sum_list (MonitorCount r)) + dM
          \<and> sum_list (map sum_list (Normalization r'))
               = sum_list (map sum_list (Normalization r)) + dN"
proof -
  let ?m = "insideEnergy energy Emin Emax"
  let ?P0 = "map (project q1 q2) (zip (mask_select ?m qx) (mask_select ?m qy))"
  let ?propos = "cut_propos q1 q2 extend' (zip (mask_select ?m qx) (mask_select ?m qy))"
  let ?lb = "cut_lenbins width minPixel ?propos"
  let ?ob = "[- width / 2, width / 2]"
  let ?p = "project q1 q2 (qx ! k, qy ! k)"
  let ?G = "\<lambda>p::vec2. (extend' \<or> (fst p > 0 \<and> fst p < dirLength q1 q2))
                  \<and> (\<exists>i. bin_index ?lb (fst p) = Some i)
                  \<and> (\<exists>j. bin_index ?ob (snd p) = Some j)"
  have lm: "length ?m = length energy" by (simp add: insideEnergy_def)
  have mk: "?m ! k" using k kE by (simp add: insideEnergy_def)
  have ne: "count_true ?m \<noteq> 0" using count_true_zero_nth [of ?m k] mk k lm by auto
  have wpos: "0 < width" using inw by linarith
  have d: "dirLength q1 q2 \<noteq> 0" using q by (simp add: dirLength_zero_iff)
  have "zip qx qy ! k \<in> set (mask_select ?m (zip qx qy))"
    using lm lqx lqy k mk by (intro nth_in_mask_select) simp_all
  then have "(qx ! k, qy ! k) \<in> set (zip (mask_select ?m qx) (mask_select ?m qy))"
    using lm lqx lqy k by (simp add: zip_mask_select)
  then have p0: "?p \<in> set ?P0" by simp
  have pin: "?p \<in> set ?propos"
  proof (cases extend')
    case True
    then show ?thesis using p0 by (simp add: cut_propos_def)
  next
    case False
    then show ?thesis using p0 inq
      by (simp add: cut_propos_def Let_def mask_select_map_filter del: set_map)
  qed
  have lbdef: "?lb = binEdges (map fst (filter (\<lambda>p. snd p < width / 2 \<and> snd p > - width / 2) ?propos))
                 minPixel"
    by (simp add: cut_lenbins_def Let_def mask_select_map_filter)
  have "fst ?p \<in> set (map fst (filter (\<lambda>p. snd p < width / 2 \<and> snd p > - width / 2) ?propos))"
    using pin inw by (simp del: set_map) (metis (mono_tags, lifting) image_eqI mem_Collect_eq set_filter set_map)
  then have cov: "2 \<le> length ?lb \<and> hd ?lb \<le> fst ?p \<and> fst ?p \<le> last ?lb"
    unfolding lbdef using t by (intro binEdges_covers) simp_all
  then obtain b where b: "bin_index ?lb (fst ?p) = Some b"
    using bin_index_inside [of ?lb "fst ?p"] by blast
  have ob: "bin_index ?ob (snd ?p) = Some 0"
    using inw by (simp add: bin_index_def)
  have Gp: "?G ?p" using inq b ob by blast
  have lbne: "length ?lb \<noteq> 0" using cov by linarith
  have slb: "sorted ?lb" unfolding lbdef using binEdges_sorted [of minPixel] t by simp
  have sob: "sorted ?ob" using wpos by simp
  obtain nc where nc: "histogram2d ?propos ?lb ?ob (replicate (length ?propos) 1) = Inr nc"
    using histogram2d_total [OF _ slb sob, of "replicate (length ?propos) 1" ?propos] by auto
  have tot: "\<exists>wW h. cut_weights q1 q2 extend' ?m (zip (mask_select ?m qx) (mask_select ?m qy)) W
          = Inr wW
     \<and> histogram2d ?propos ?lb ?ob wW = Inr h
     \<and> sum_list (map sum_list h)
         = (\<Sum>i<length energy. if ?m ! i \<and> ?G (project q1 q2 (qx ! i, qy ! i)) then W ! i else 0)"
    if "length W = length energy" for W
    using cut_histogram_total [OF _ _ that lqx lqy, of minPixel width q1 q2 extend' Emin Emax]
      t wpos by simp
  have upd: "(\<Sum>i<length energy. if ?m ! i \<and> ?G (project q1 q2 (qx ! i, qy ! i))
                 then (W[k := W ! k + dW]) ! i else 0)
      = (\<Sum>i<length energy. if ?m ! i \<and> ?G (project q1 q2 (qx ! i, qy ! i)) then W ! i else 0) + dW"
    if "length W = length energy" for W :: "real list" and dW
    using sum_update_nth [of k "length energy" W
        "\<lambda>i. ?m ! i \<and> ?G (project q1 q2 (qx ! i, qy ! i))" "W ! k + dW"] k that mk Gp
    by simp
  obtain wI hI where I1: "cut_weights q1 q2 extend' ?m (zip (mask_select ?m qx) (mask_select ?m qy)) I = Inr wI"
      "histogram2d ?propos ?lb ?ob wI = Inr hI"
      "sum_list (map sum_list hI)
         = (\<Sum>i<length energy. if ?m ! i \<and> ?G (project q1 q2 (qx ! i, qy ! i)) then I ! i else 0)"
    using tot [OF lI] by blast
  obtain wM hM where M1: "cut_weights q1 q2 extend' ?m (zip (mask_select ?m qx) (mask_select ?m qy)) Monitor = Inr wM"
      "histogram2d ?propos ?lb ?ob wM = Inr hM"
      "sum_list (map sum_list hM)
         = (\<Sum>i<length energy. if ?m ! i \<and> ?G (project q1 q2 (qx ! i, qy ! i)) then Monitor ! i else 0)"
    using tot [OF lM] by blast
  obtain wN hN where N1: "cut_weights q1 q2 extend' ?m (zip (mask_select ?m qx) (mask_select ?m qy)) Norm = Inr wN"
      "histogram2d ?propos ?lb ?ob wN = Inr hN"
      "sum_list (map sum_list hN)
         = (\<Sum>i<length energy. if ?m ! i \<and> ?G (project q1 q2 (qx ! i, qy ! i)) then Norm ! i else 0)"
    using tot [OF lN] by blast
  let ?I' = "I[k := I ! k + dI]" and ?M' = "Monitor[k := Monitor ! k + dM]"
    and ?N' = "Norm[k := Norm ! k + dN]"
  have lI': "length ?I' = length energy" and lM': "length ?M' = length energy"
    and lN': "length ?N' = length energy" using lI lM lN by simp_all
  obtain wI' hI' where I2: "cut_weights q1 q2 extend' ?m (zip (mask_select ?m qx) (mask_select ?m qy)) ?I' = Inr wI'"
      "histogram2d ?propos ?lb ?ob wI' = Inr hI'"
      "sum_list (map sum_list hI')
         = (\<Sum>i<length energy. if ?m ! i \<and> ?G (project q1 q2 (qx ! i, qy ! i)) then ?I' ! i else 0)"
    using tot [OF lI'] by blast
  obtain wM' hM' where M2: "cut_weights q1 q2 extend' ?m (zip (mask_select ?m qx) (mask_select ?m qy)) ?M' = Inr wM'"
      "histogram2d ?propos ?lb ?ob wM' = Inr hM'"
      "sum_list (map sum_list hM')
         = (\<Sum>i<length energy. if ?m ! i \<and> ?G (project q1 q2 (qx ! i, qy ! i)) then ?M' ! i else 0)"
    using tot [OF lM'] by blast
  obtain wN' hN' where N2: "cut_weights q1 q2 extend' ?m (zip (mask_select ?m qx) (mask_select ?m qy)) ?N' = Inr wN'"
      "histogram2d ?propos ?lb ?ob wN' = Inr hN'"
      "sum_list (map sum_list hN')
         = (\<Sum>i<length energy. if ?m ! i \<and> ?G (project q1 q2 (qx ! i, qy ! i)) then ?N' ! i else 0)"
    using tot [OF lN'] by blast
  obtain r where r: "cut1D (qx, qy, energy) I Norm Monitor q1 q2 width minPixel Emin Emax extend' = Inr r"
      "intensity r = hI" "MonitorCount r = hM" "Normalization r = hN"
    using cut1D_histograms [OF lqx lqy ne d lbne nc I1(1,2) M1(1,2) N1(1,2)] by blast
  obtain r' where r': "cut1D (qx, qy, energy) ?I' ?N' ?M' q1 q2 width minPixel Emin Emax extend' = Inr r'"
      "intensity r' = hI'" "MonitorCount r' = hM'" "Normalization r' = hN'"
    using cut1D_histograms [OF lqx lqy ne d lbne nc I2(1,2) M2(1,2) N2(1,2)] by blast
  have "length hI = length ?lb - 1" using I1(2) by (rule histogram2d_length)
  then have "hI \<noteq> []" using cov by auto
  moreover have "sum_list (map sum_list hI') = sum_list (map sum_list hI) + dI"
    using I1(3) I2(3) upd [OF lI, of dI] by simp
  moreover have "sum_list (map sum_list hM') = sum_list (map sum_list hM) + dM"
    using M1(3) M2(3) upd [OF lM, of dM] by simp
  moreover have "sum_list (map sum_list hN') = sum_list (map sum_list hN) + dN"
    using N1(3) N2(3) upd [OF lN, of dN] by simp
  ultimately show ?thesis using r r' by auto
qed

section \<open>Energy slices\<close>

lemma cutQE_loop_member:
  "cutQE_loop positions I Norm Monitor q1 q2 width minPix extend' ws = Inr rs \<Longrightarrow>
   (Emin, Emax) \<in> set ws \<Longrightarrow>
   cut1D positions I Norm Monitor q1 q2 width minPix Emin Emax extend' = Inr r \<Longrightarrow>
   intensity r \<noteq> [] \<Longrightarrow> r \<in> set rs"
proof (induction ws arbitrary: rs)
  case Nil
  then show ?case by simp
next
  case (Cons w ws)
  obtain a b where w: "w = (a, b)" by (cases w)
  from Cons.prems(1) obtain r0 rs0 where
    r0: "cut1D positions I Norm Monitor q1 q2 width minPix a b extend' = Inr r0"
    and rs0: "cutQE_loop positions I Norm Monitor q1 q2 width minPix extend' ws = Inr rs0"
    and rs: "rs = (if length (intensity r0) = 0 then rs0 else r0 # rs0)"
    by (auto simp: w bind_err_def split: sum.splits if_splits)
  show ?case
  proof (cases "(Emin, Emax) = w")
    case True
    then have "r0 = r" using r0 Cons.prems(3) by (simp add: w)
    then show ?thesis using rs Cons.prems(4) by simp
  next
    case False
    then have "(Emin, Emax) \<in> set ws" using Cons.prems(2) by auto
    from Cons.IH [OF rs0 this Cons.prems(3,4)] show ?thesis using rs by simp
  qed
qed

lemma energy_windows_nth:
  "j + 1 < length EnergyBins \<Longrightarrow>
     energy_windows EnergyBins ! j = (EnergyBins ! j, EnergyBins ! (j + 1))"
  by (simp add: energy_windows_def nth_butlast nth_tl)

lemma energy_windows_length: "length (energy_windows EnergyBins) = length EnergyBins - 1"
  by (simp add: energy_windows_def)

lemma cut_lenbins_nonempty_width:
  assumes "length (cut_lenbins width minPixel propos) \<noteq> 0"
  shows "0 < width"
proof (rule ccontr)
  assume "\<not> 0 < width"
  then have "\<And>p::vec2. \<not> (snd p < width / 2 \<and> snd p > - width / 2)" by auto
  then have "cut_lenbins width minPixel propos = binEdges [] minPixel"
    by (simp add: cut_lenbins_def Let_def mask_select_map_filter)
  then show False using assms by (simp add: binEdges_Nil)
qed

lemma cut1D_returns:
  fixes qx qy energy I Norm Monitor :: "real list" and q1 q2 :: vec2
  assumes t: "0 \<le> minPixel"
    and lqx: "length qx = length energy" and lqy: "length qy = length energy"
    and lI: "length I = length energy" and lN: "length Norm = length energy"
    and lM: "length Monitor = length energy"
  shows "\<exists>r. cut1D (qx, qy, energy) I Norm Monitor q1 q2 width minPixel Emin Emax extend' = Inr r"
proof -
  let ?m = "insideEnergy energy Emin Emax"
  let ?propos = "cut_propos q1 q2 extend' (zip (mask_select ?m qx) (mask_select ?m qy))"
  let ?lb = "cut_lenbins width minPixel ?propos"
  let ?ob = "[- width / 2, width / 2]"
  have lm: "length ?m = length energy" by (simp add: insideEnergy_def)
  have idx: "np_index ?m qx = Inr (mask_select ?m qx)" "np_index ?m qy = Inr (mask_select ?m qy)"
    using lm lqx lqy by (simp_all add: np_index_def)
  show ?thesis
  proof (cases "count_true ?m = 0 \<or> dirLength q1 q2 = 0 \<or> length ?lb = 0")
    case True
    then show ?thesis
      unfolding cut1D_def prod.case Let_def
      by (auto simp: idx bind_err_def)
  next
    case False
    then have ne: "count_true ?m \<noteq> 0" and d: "dirLength q1 q2 \<noteq> 0" and lbne: "length ?lb \<noteq> 0"
      by auto
    have wpos: "0 \<le> width" using cut_lenbins_nonempty_width [OF lbne] by simp
    have slb: "sorted ?lb"
      using binEdges_sorted [OF t] by (simp add: cut_lenbins_def Let_def)
    have sob: "sorted ?ob" using wpos by simp
    obtain nc where nc: "histogram2d ?propos ?lb ?ob (replicate (length ?propos) 1) = Inr nc"
      using histogram2d_total [OF _ slb sob, of "replicate (length ?propos) 1" ?propos] by auto
    have tot: "\<exists>wW h. cut_weights q1 q2 extend' ?m (zip (mask_select ?m qx) (mask_select ?m qy)) W
            = Inr wW \<and> histogram2d ?propos ?lb ?ob wW = Inr h"
      if "length W = length energy" for W
      using cut_histogram_total [OF t wpos that lqx lqy, of q1 q2 extend' Emin Emax] by blast
    obtain wI hI where I1: "cut_weights q1 q2 extend' ?m (zip (mask_select ?m qx) (mask_select ?m qy)) I = Inr wI"
        "histogram2d ?propos ?lb ?ob wI = Inr hI"
      using tot [OF lI] by blast
    obtain wM hM where M1: "cut_weights q1 q2 extend' ?m (zip (mask_select ?m qx) (mask_select ?m qy)) Monitor = Inr wM"
        "histogram2d ?propos ?lb ?ob wM = Inr hM"
      using tot [OF lM] by blast
    obtain wN hN where N1: "cut_weights q1 q2 extend' ?m (zip (mask_select ?m qx) (mask_select ?m qy)) Norm = Inr wN"
        "histogram2d ?propos ?lb ?ob wN = Inr hN"
      using tot [OF lN] by blast
    from cut1D_histograms [OF lqx lqy ne d lbne nc I1 M1 N1] show ?thesis by blast
  qed
qed

lemma cutQE_loop_returns:
  fixes qx qy energy I Norm Monitor :: "real list" and q1 q2 :: vec2
  assumes t: "0 \<le> minPix"
    and lqx: "length qx = length energy" and lqy: "length qy = length energy"
    and lI: "length I = length energy" and lN: "length Norm = length energy"
    and lM: "length Monitor = length energy"
  shows "\<exists>rs. cutQE_loop (qx, qy, energy) I Norm Monitor q1 q2 width minPix extend' ws = Inr rs"
proof (induction ws)
  case Nil
  show ?case by simp
next
  case (Cons w ws)
  obtain a b where w: "w = (a, b)" by (cases w)
  from cut1D_returns [OF assms, of q1 q2 width a b extend']
  obtain r where r: "cut1D (qx, qy, energy) I Norm Monitor q1 q2 width minPix a b extend' = Inr r"
    by blast
  from Cons.IH obtain rs where
    rs: "cutQE_loop (qx, qy, energy) I Norm Monitor q1 q2 width minPix extend' ws = Inr rs"
    by blast
  show ?case by (simp add: w r rs bind_err_def)
qed

lemma cutQE_returns:
  fixes qx qy energy I Norm Monitor :: "real list" and q1 q2 :: vec2
  assumes t: "0 \<le> minPix"
    and lqx: "length qx = length energy" and lqy: "length qy = length energy"
    and lI: "length I = length energy" and lN: "length Norm = length energy"
    and lM: "length Monitor = length energy"
  shows "\<exists>res. cutQE (qx, qy, energy) I Norm Monitor q1 q2 width minPix EnergyBins extend' = Inr res"
proof -
  from cutQE_loop_returns [OF assms, of q1 q2 width extend' "energy_windows EnergyBins"]
  obtain rs where "cutQE_loop (qx, qy, energy) I Norm Monitor q1 q2 width minPix extend'
                     (energy_windows EnergyBins) = Inr rs" by blast
  then show ?thesis by (simp add: cutQE_def bind_err_def)
qed

lemma cutQE_member:
  assumes "cutQE positions I Norm Monitor q1 q2 width minPix EnergyBins extend' = Inr res"
    and "(Emin, Emax) \<in> set (energy_windows EnergyBins)"
    and "cut1D positions I Norm Monitor q1 q2 width minPix Emin Emax extend' = Inr r"
    and "intensity r \<noteq> []"
  shows "r \<in> set (dataQE res)"
proof -
  from assms(1) obtain rs where
    rs: "cutQE_loop positions I Norm Monitor q1 q2 width minPix extend'
           (energy_windows EnergyBins) = Inr rs" and "dataQE res = rs"
    by (auto simp: cutQE_def bind_err_def split: sum.splits)
  then show ?thesis using cutQE_loop_member [OF rs assms(2,3,4)] by simp
qed

text \<open>
  C10, as stated, fails: a point whose energy equals an interior edge is counted in neither
  of the two adjacent slices when it lies outside the width of the cut. Here the point
  \<open>(0, 10)\<close> has the energy of the interior edge \<open>1\<close> of the bins \<open>[0, 1, 2]\<close>, the cut runs
  from \<open>(0, 0)\<close> to \<open>(1, 0)\<close> with width \<open>1\<close>, and \<open>cutQE\<close> returns no slice at all.
\<close>

theorem cutQE_edge_point_not_counted_counterexample:
  "cutQE ([0], [10], [1]) [3] [1] [2] (0, 0) (1, 0) 1 (1/2) [0, 1, 2] True
     = Inr \<lparr>dataQE = [], centerPos = [], binDistance = []\<rparr>"
  by (simp add: cutQE_def energy_windows_def bind_err_def cut1D_def insideEnergy_def
      count_true_def np_index_def mask_select_def dirLength_def cut_propos_def cut_lenbins_def
      project_def dirvec_def orthovec_def binEdges_def Let_def)

text \<open>
  C10 (amended): the energy filter of \<open>cut1D\<close>, which \<open>cutQE\<close> applies once per consecutive
  pair of energy edges, is inclusive at both ends. So for arrays of equal length, a positive
  \<open>minPix\<close> and two different end points, a point whose energy equals an interior edge of an
  energy-bin list that ascends around that edge, and which passes the filters that do not
  depend on the slice (strictly inside the width, and strictly between the end points when
  the cut is not extended), is counted in both adjacent slices: \<open>cutQE\<close> returns, each of the
  two slices is non-empty and is among the slices returned, and raising the point's
  intensity, monitor and normalization raises the totals of the three histograms of each
  of the two slices by the same amounts.
\<close>

theorem cutQE_edge_point_in_both_slices:
  fixes qx qy energy I Norm Monitor EnergyBins :: "real list" and q1 q2 :: vec2
  assumes "0 < minPix" and "q1 \<noteq> q2"
    and "length qx = length energy" and "length qy = length energy"
    and "length I = length energy" and "length Norm = length energy"
    and "length Monitor = length energy"
    and i: "0 < i" "i + 1 < length EnergyBins"
    and asc: "EnergyBins ! (i - 1) \<le> EnergyBins ! i" "EnergyBins ! i \<le> EnergyBins ! (i + 1)"
    and k: "k < length energy" and kE: "energy ! k = EnergyBins ! i"
    and inw: "- width / 2 < snd (project q1 q2 (qx ! k, qy ! k))"
             "snd (project q1 q2 (qx ! k, qy ! k)) < width / 2"
    and inq: "extend' \<or> (0 < fst (project q1 q2 (qx ! k, qy ! k))
                          \<and> fst (project q1 q2 (qx ! k, qy ! k)) < dirLength q1 q2)"
  shows "\<exists>res res'.
       cutQE (qx, qy, energy) I Norm Monitor q1 q2 width minPix EnergyBins extend' = Inr res
     \<and> cutQE (qx, qy, energy) (I[k := I ! k + dI]) (Norm[k := Norm ! k + dN])
          (Monitor[k := Monitor ! k + dM]) q1 q2 width minPix EnergyBins extend' = Inr res'
     \<and> energy_windows EnergyBins ! (i - 1) = (EnergyBins ! (i - 1), EnergyBins ! i)
     \<and> energy_windows EnergyBins ! i = (EnergyBins ! i, EnergyBins ! (i + 1))
     \<and> (\<forall>(Emin, Emax) \<in> {energy_windows EnergyBins ! (i - 1), energy_windows EnergyBins ! i}.
          \<exists>r r'. cut1D (qx, qy, energy) I Norm Monitor q1 q2 width minPix Emin Emax extend' = Inr r
            \<and> intensity r \<noteq> [] \<and> r \<in> set (dataQE res)
            \<and> cut1D (qx, qy, energy) (I[k := I ! k + dI]) (Norm[k := Norm ! k + dN])
                 (Monitor[k := Monitor ! k + dM]) q1 q2 width minPix Emin Emax extend' = Inr r'
            \<and> intensity r' \<noteq> [] \<and> r' \<in> set (dataQE res')
            \<and> sum_list (map sum_list (intensity r')) = sum_list (map sum_list (intensity r)) + dI
            \<and> sum_list (map sum_list (MonitorCount r'))
                 = sum_list (map sum_list (MonitorCount r)) + dM
            \<and> sum_list (map sum_list (Normalization r'))
                 = sum_list (map sum_list (Normalization r)) + dN)"
proof -
  let ?I' = "I[k := I ! k + dI]" and ?N' = "Norm[k := Norm ! k + dN]"
    and ?M' = "Monitor[k := Monitor ! k + dM]"
  have t: "0 \<le> minPix" using assms(1) by simp
  have l': "length ?I' = length energy" "length ?N' = length energy" "length ?M' = length energy"
    using assms(5-7) by simp_all
  from cutQE_returns [OF t assms(3-7), of q1 q2 width EnergyBins extend']
  obtain res where res:
    "cutQE (qx, qy, energy) I Norm Monitor q1 q2 width minPix EnergyBins extend' = Inr res"
    by blast
  from cutQE_returns [OF t assms(3,4) l', of q1 q2 width EnergyBins extend']
  obtain res' where res':
    "cutQE (qx, qy, energy) ?I' ?N' ?M' q1 q2 width minPix EnergyBins extend' = Inr res'"
    by blast
  have w1: "energy_windows EnergyBins ! (i - 1) = (EnergyBins ! (i - 1), EnergyBins ! i)"
    using energy_windows_nth [of "i - 1" EnergyBins] i by simp
  have w2: "energy_windows EnergyBins ! i = (EnergyBins ! i, EnergyBins ! (i + 1))"
    using energy_windows_nth [of i EnergyBins] i by simp
  have slice: "\<exists>r r'. cut1D (qx, qy, energy) I Norm Monitor q1 q2 width minPix Emin Emax extend' = Inr r
            \<and> intensity r \<noteq> [] \<and> r \<in> set (dataQE res)
            \<and> cut1D (qx, qy, energy) ?I' ?N' ?M' q1 q2 width minPix Emin Emax extend' = Inr r'
            \<and> intensity r' \<noteq> [] \<and> r' \<in> set (dataQE res')
            \<and> sum_list (map sum_list (intensity r')) = sum_list (map sum_list (intensity r)) + dI
            \<and> sum_list (map sum_list (MonitorCount r'))
                 = sum_list (map sum_list (MonitorCount r)) + dM
            \<and> sum_list (map sum_list (Normalization r'))
                 = sum_list (map sum_list (Normalization r)) + dN"
    if w: "(Emin, Emax) \<in> {energy_windows EnergyBins ! (i - 1), energy_windows EnergyBins ! i}"
    for Emin Emax
  proof -
    have win: "Emin \<le> energy ! k" "energy ! k \<le> Emax"
      using w w1 w2 asc kE by auto
    have mem: "(Emin, Emax) \<in> set (energy_windows EnergyBins)"
    proof -
      have "i - 1 < length (energy_windows EnergyBins)" "i < length (energy_windows EnergyBins)"
        using i by (simp_all add: energy_windows_length)
      then show ?thesis using w by (auto simp del: One_nat_def)
    qed
    from cut1D_counts_point [OF assms(1-7) k win inw inq, of dI dN dM]
    obtain r r' where r: "cut1D (qx, qy, energy) I Norm Monitor q1 q2 width minPix Emin Emax extend' = Inr r"
        "intensity r \<noteq> []"
      and r': "cut1D (qx, qy, energy) ?I' ?N' ?M' q1 q2 width minPix Emin Emax extend' = Inr r'"
        "sum_list (map sum_list (intensity r')) = sum_list (map sum_list (intensity r)) + dI"
        "sum_list (map sum_list (MonitorCount r')) = sum_list (map sum_list (MonitorCount r)) + dM"
        "sum_list (map sum_list (Normalization r')) = sum_list (map sum_list (Normalization r)) + dN"
      by blast
    from cut1D_counts_point [OF assms(1-4) l' k win inw inq, of 0 0 0]
    obtain r'' where "cut1D (qx, qy, energy) ?I' ?N' ?M' q1 q2 width minPix Emin Emax extend' = Inr r''"
        "intensity r'' \<noteq> []"
      by blast
    then have ne': "intensity r' \<noteq> []" using r'(1) by simp
    have "r \<in> set (dataQE res)" by (rule cutQE_member [OF res mem r])
    moreover have "r' \<in> set (dataQE res')" by (rule cutQE_member [OF res' mem r'(1) ne'])
    ultimately show ?thesis using r r' ne' by blast
  qed
  show ?thesis
    apply (rule exI [of _ res], rule exI [of _ res'])
    using res res' w1 w2 slice by (simp only: simp_thms) blast
qed

theorem cutQE_edge_point_in_both_slices_witness:
  "\<exists>res res'.
      cutQE ([1/2], [0], [1]) [3] [1] [2] (0, 0) (1, 0) 1 (1/2) [0, 1, 2] True = Inr res
    \<and> cutQE ([1/2], [0], [1]) [4] [2] [3] (0, 0) (1, 0) 1 (1/2) [0, 1, 2] True = Inr res'
    \<and> (\<exists>r r'. cut1D ([1/2], [0], [1]) [3] [1] [2] (0, 0) (1, 0) 1 (1/2) 0 1 True = Inr r
       \<and> r \<in> set (dataQE res)
       \<and> cut1D ([1/2], [0], [1]) [4] [2] [3] (0, 0) (1, 0) 1 (1/2) 0 1 True = Inr r'
       \<and> r' \<in> set (dataQE res')
       \<and> sum_list (map sum_list (intensity r')) = sum_list (map sum_list (intensity r)) + 1)
    \<and> (\<exists>r r'. cut1D ([1/2], [0], [1]) [3] [1] [2] (0, 0) (1, 0) 1 (1/2) 1 2 True = Inr r
       \<and> r \<in> set (dataQE res)
       \<and> cut1D ([1/2], [0], [1]) [4] [2] [3] (0, 0) (1, 0) 1 (1/2) 1 2 True = Inr r'
       \<and> r' \<in> set (dataQE res')
       \<and> sum_list (map sum_list (intensity r')) = sum_list (map sum_list (intensity r)) + 1)"
proof -
  have "0 < (1/2::real)" "((0, 0)::vec2) \<noteq> (1, 0)" "(0::nat) < 1" "1 + 1 < length [0, 1, 2::real]"
    "[0, 1, 2::real] ! (1 - 1) \<le> [0, 1, 2] ! 1" "[0, 1, 2::real] ! 1 \<le> [0, 1, 2] ! (1 + 1)"
    "(0::nat) < length [1::real]" "[1::real] ! 0 = [0, 1, 2] ! 1"
    "- 1 / 2 < snd (project (0, 0) (1, 0) ([1/2] ! 0, [0] ! 0))"
    "snd (project (0, 0) (1, 0) ([1/2] ! 0, [0] ! 0)) < 1 / 2"
    by (simp_all add: project_def dirvec_def orthovec_def dirLength_def)
  from cutQE_edge_point_in_both_slices [OF this(1,2) _ _ _ _ _ this(3-10), of "[3]" "[1]" "[2]"
      True 1 1 1]
  show ?thesis by (simp add: energy_windows_def) blast
qed


section \<open>Cuts along a path\<close>








section \<open>Properties of the grid and the voxelizer\<close>

lemma XT_of_inner:
  "0 < n0 X \<Longrightarrow> i \<le> n0 X \<Longrightarrow> j < n1 X \<Longrightarrow> k < n2 X \<Longrightarrow>
     XT_of X i j k = (if i < n0 X then XX_of X i j k
                      else XX_of X (n0 X - 1) j k + diff0 X (n0 X - 2) j k)"
  by (simp add: XT_of_def XT7_of_def XT6_of_def XT5_of_def XT4_of_def XT3_of_def XT2_of_def
      XT1_of_def assign3_def)

lemma XT_of_face1:
  "0 < n1 X \<Longrightarrow> i < n0 X \<Longrightarrow> j \<le> n1 X \<Longrightarrow> k < n2 X \<Longrightarrow>
     XT_of X i j k = (if j < n1 X then XX_of X i j k
                      else XX_of X i (n1 X - 1) k + diff1 X i (n1 X - 2) k)"
  by (simp add: XT_of_def XT7_of_def XT6_of_def XT5_of_def XT4_of_def XT3_of_def XT2_of_def
      XT1_of_def assign3_def)

lemma XT_of_face2:
  "0 < n2 X \<Longrightarrow> i < n0 X \<Longrightarrow> j < n1 X \<Longrightarrow> k \<le> n2 X \<Longrightarrow>
     XT_of X i j k = (if k < n2 X then XX_of X i j k
                      else XX_of X i j (n2 X - 1) + diff2 X i j (n2 X - 2))"
  by (simp add: XT_of_def XT7_of_def XT6_of_def XT5_of_def XT4_of_def XT3_of_def XT2_of_def
      XT1_of_def assign3_def)


lemma XX_of_first:
  "2 \<le> n0 X \<Longrightarrow> 2 \<le> n1 X \<Longrightarrow> 2 \<le> n2 X \<Longrightarrow> i < n0 X \<Longrightarrow>
     XX_of X i 0 0 = el X i 0 0
       - 0.5 * diff0 X (if i < n0 X - 1 then i else n0 X - 2) 0 0
       - 0.5 * diff1 X i 0 0 - 0.5 * diff2 X i 0 0"
  by (auto simp add: XX_of_def isub3_def)

lemma XX_of_second:
  "2 \<le> n0 X \<Longrightarrow> 2 \<le> n1 X \<Longrightarrow> 2 \<le> n2 X \<Longrightarrow> j < n1 X \<Longrightarrow>
     XX_of X 0 j 0 = el X 0 j 0 - 0.5 * diff0 X 0 j 0
       - 0.5 * diff1 X 0 (if j < n1 X - 1 then j else n1 X - 2) 0 - 0.5 * diff2 X 0 j 0"
  by (auto simp add: XX_of_def isub3_def)

lemma XX_of_third:
  "2 \<le> n0 X \<Longrightarrow> 2 \<le> n1 X \<Longrightarrow> 2 \<le> n2 X \<Longrightarrow> k < n2 X \<Longrightarrow>
     XX_of X 0 0 k = el X 0 0 k - 0.5 * diff0 X 0 0 k - 0.5 * diff1 X 0 0 k
       - 0.5 * diff2 X 0 0 (if k < n2 X - 1 then k else n2 X - 2)"
  by (auto simp add: XX_of_def isub3_def)

text \<open>The edges along one axis of a grid of evenly spaced centres.\<close>

lemma edges_even_axis0:
  assumes n: "2 \<le> n" and b: "2 \<le> length ys" and c: "2 \<le> length zs"
    and i: "i \<le> n" and cs: "cs = map (\<lambda>i. lo + real i * h) [0..<n]"
  shows "el (centers_to_edges (fst (meshgrid cs ys zs))) i 0 0
           = lo + (real i - 1 / 2) * h"
proof -
  let ?X = "fst (meshgrid cs ys zs)"
  have s: "n0 ?X = n" "n1 ?X = length ys" "n2 ?X = length zs"
    by (simp_all add: meshgrid_def n0_def n1_def n2_def cs)
  have e: "el ?X i' p q = cs ! i'" for i' p q
    by (simp add: meshgrid_def)
  have nth: "cs ! i' = lo + real i' * h" if "i' < n" for i'
    using that by (simp add: cs)
  have d0: "diff0 ?X i' 0 0 = h" if "i' + 1 < n" for i'
    using that by (simp add: diff0_def e nth algebra_simps del: nth_map)
  have d1: "diff1 ?X i' 0 0 = 0" "diff2 ?X i' 0 0 = 0" for i'
    by (simp_all add: diff1_def diff2_def e del: nth_map)
  have xx: "XX_of ?X i' 0 0 = lo + real i' * h - h / 2" if "i' < n" for i'
  proof -
    have "(if i' < n - 1 then i' else n - 2) + 1 < n" using that n by auto
    then show ?thesis
      using XX_of_first [of ?X i'] that n b c
      by (simp add: s e nth d0 d1 del: One_nat_def nth_map)
  qed
  have xt: "XT_of ?X i 0 0
      = (if i < n then XX_of ?X i 0 0 else XX_of ?X (n - 1) 0 0 + diff0 ?X (n - 2) 0 0)"
    by (rule XT_of_inner [of ?X i 0 0, unfolded s]) (use n b c i in auto)
  show ?thesis
  proof (cases "i < n")
    case True
    then show ?thesis
      using xt xx [of i] by (simp add: centers_to_edges_def algebra_simps del: nth_map)
  next
    case False
    then have "i = n" using i by simp
    moreover have "real n = real (n - 1) + 1" using n by (simp add: of_nat_diff)
    moreover have "n - 2 + 1 < n" "n - 1 < n" using n by simp_all
    ultimately show ?thesis
      using xt xx [of "n - 1"] d0 [of "n - 2"]
      by (simp add: centers_to_edges_def algebra_simps del: One_nat_def nth_map)
  qed
qed

lemma edges_even_axis1:
  assumes n: "2 \<le> n" and b: "2 \<le> length xs" and c: "2 \<le> length zs"
    and i: "i \<le> n" and cs: "cs = map (\<lambda>i. lo + real i * h) [0..<n]"
  shows "el (centers_to_edges ((\<lambda>g. fst (snd g)) (meshgrid xs cs zs))) 0 i 0
           = lo + (real i - 1 / 2) * h"
proof -
  let ?X = "(\<lambda>g. fst (snd g)) (meshgrid xs cs zs)"
  have s: "n1 ?X = n" "n0 ?X = length xs" "n2 ?X = length zs"
    by (simp_all add: meshgrid_def n0_def n1_def n2_def cs)
  have e: "el ?X p i' q = cs ! i'" for i' p q
    by (simp add: meshgrid_def)
  have nth: "cs ! i' = lo + real i' * h" if "i' < n" for i'
    using that by (simp add: cs)
  have d0: "diff1 ?X 0 i' 0 = h" if "i' + 1 < n" for i'
    using that by (simp add: diff1_def e nth algebra_simps del: nth_map)
  have d1: "diff0 ?X 0 i' 0 = 0" "diff2 ?X 0 i' 0 = 0" for i'
    by (simp_all add: diff0_def diff2_def e del: nth_map)
  have xx: "XX_of ?X 0 i' 0 = lo + real i' * h - h / 2" if "i' < n" for i'
  proof -
    have "(if i' < n - 1 then i' else n - 2) + 1 < n" using that n by auto
    then show ?thesis
      using XX_of_second [of ?X i'] that n b c
      by (simp add: s e nth d0 d1 del: One_nat_def nth_map)
  qed
  have xt: "XT_of ?X 0 i 0
      = (if i < n then XX_of ?X 0 i 0 else XX_of ?X 0 (n - 1) 0 + diff1 ?X 0 (n - 2) 0)"
    by (rule XT_of_face1 [of ?X 0 i 0, unfolded s]) (use n b c i in auto)
  show ?thesis
  proof (cases "i < n")
    case True
    then show ?thesis
      using xt xx [of i] by (simp add: centers_to_edges_def algebra_simps del: nth_map)
  next
    case False
    then have "i = n" using i by simp
    moreover have "real n = real (n - 1) + 1" using n by (simp add: of_nat_diff)
    moreover have "n - 2 + 1 < n" "n - 1 < n" using n by simp_all
    ultimately show ?thesis
      using xt xx [of "n - 1"] d0 [of "n - 2"]
      by (simp add: centers_to_edges_def algebra_simps del: One_nat_def nth_map)
  qed
qed

lemma edges_even_axis2:
  assumes n: "2 \<le> n" and b: "2 \<le> length xs" and c: "2 \<le> length ys"
    and i: "i \<le> n" and cs: "cs = map (\<lambda>i. lo + real i * h) [0..<n]"
  shows "el (centers_to_edges ((\<lambda>g. snd (snd g)) (meshgrid xs ys cs))) 0 0 i
           = lo + (real i - 1 / 2) * h"
proof -
  let ?X = "(\<lambda>g. snd (snd g)) (meshgrid xs ys cs)"
  have s: "n2 ?X = n" "n0 ?X = length xs" "n1 ?X = length ys"
    by (simp_all add: meshgrid_def n0_def n1_def n2_def cs)
  have e: "el ?X p q i' = cs ! i'" for i' p q
    by (simp add: meshgrid_def)
  have nth: "cs ! i' = lo + real i' * h" if "i' < n" for i'
    using that by (simp add: cs)
  have d0: "diff2 ?X 0 0 i' = h" if "i' + 1 < n" for i'
    using that by (simp add: diff2_def e nth algebra_simps del: nth_map)
  have d1: "diff0 ?X 0 0 i' = 0" "diff1 ?X 0 0 i' = 0" for i'
    by (simp_all add: diff0_def diff1_def e del: nth_map)
  have xx: "XX_of ?X 0 0 i' = lo + real i' * h - h / 2" if "i' < n" for i'
  proof -
    have "(if i' < n - 1 then i' else n - 2) + 1 < n" using that n by auto
    then show ?thesis
      using XX_of_third [of ?X i'] that n b c
      by (simp add: s e nth d0 d1 del: One_nat_def nth_map)
  qed
  have xt: "XT_of ?X 0 0 i
      = (if i < n then XX_of ?X 0 0 i else XX_of ?X 0 0 (n - 1) + diff2 ?X 0 0 (n - 2))"
    by (rule XT_of_face2 [of ?X 0 0 i, unfolded s]) (use n b c i in auto)
  show ?thesis
  proof (cases "i < n")
    case True
    then show ?thesis
      using xt xx [of i] by (simp add: centers_to_edges_def algebra_simps del: nth_map)
  next
    case False
    then have "i = n" using i by simp
    moreover have "real n = real (n - 1) + 1" using n by (simp add: of_nat_diff)
    moreover have "n - 2 + 1 < n" "n - 1 < n" using n by simp_all
    ultimately show ?thesis
      using xt xx [of "n - 1"] d0 [of "n - 2"]
      by (simp add: centers_to_edges_def algebra_simps del: One_nat_def nth_map)
  qed
qed

lemma sorted_even_edges:
  "0 \<le> h \<Longrightarrow> sorted (map (\<lambda>i. lo + (real i - 1 / 2) * h) [0..<n])"
  by (auto simp: sorted_iff_nth_mono intro!: mult_right_mono)

lemma np_round_2: "np_round 2 = 2" and np_round_4: "np_round 4 = 4" and np_round_0: "np_round 0 = 0"
  by (simp_all add: np_round_def)

text \<open>The histogram edges along the three axes, as binData3D reads them off the bins.\<close>

lemma HistBins_even:
  assumes nx: "2 \<le> nx" and ny: "2 \<le> ny" and nz: "2 \<le> nz"
    and X: "X = map (\<lambda>i. x0 + real i * hx) [0..<nx]"
    and Y: "Y = map (\<lambda>i. y0 + real i * hy) [0..<ny]"
    and Z: "Z = map (\<lambda>i. z0 + real i * hz) [0..<nz]"
  shows "calculateGrid3D (fst (meshgrid X Y Z)) (fst (snd (meshgrid X Y Z)))
           (snd (snd (meshgrid X Y Z)))
         = Inr (centers_to_edges (fst (meshgrid X Y Z)),
                centers_to_edges (fst (snd (meshgrid X Y Z))),
                centers_to_edges (snd (snd (meshgrid X Y Z))))"
    and "map (\<lambda>i. el (centers_to_edges (fst (meshgrid X Y Z))) i 0 0)
           [0..<n0 (centers_to_edges (fst (meshgrid X Y Z)))]
         = map (\<lambda>i. x0 + (real i - 1 / 2) * hx) [0..<nx + 1]"
    and "map (\<lambda>j. el (centers_to_edges (fst (snd (meshgrid X Y Z)))) 0 j 0)
           [0..<n1 (centers_to_edges (fst (snd (meshgrid X Y Z))))]
         = map (\<lambda>i. y0 + (real i - 1 / 2) * hy) [0..<ny + 1]"
    and "map (\<lambda>k. el (centers_to_edges (snd (snd (meshgrid X Y Z)))) 0 0 k)
           [0..<n2 (centers_to_edges (snd (snd (meshgrid X Y Z))))]
         = map (\<lambda>i. z0 + (real i - 1 / 2) * hz) [0..<nz + 1]"
proof -
  have l: "length X = nx" "length Y = ny" "length Z = nz" by (simp_all add: X Y Z)
  show "calculateGrid3D (fst (meshgrid X Y Z)) (fst (snd (meshgrid X Y Z)))
           (snd (snd (meshgrid X Y Z)))
         = Inr (centers_to_edges (fst (meshgrid X Y Z)),
                centers_to_edges (fst (snd (meshgrid X Y Z))),
                centers_to_edges (snd (snd (meshgrid X Y Z))))"
    using nx ny nz by (simp add: calculateGrid3D_def meshgrid_def n0_def n1_def n2_def l)
  have s: "n0 (centers_to_edges (fst (meshgrid X Y Z))) = nx + 1"
    "n1 (centers_to_edges (fst (snd (meshgrid X Y Z)))) = ny + 1"
    "n2 (centers_to_edges (snd (snd (meshgrid X Y Z)))) = nz + 1"
    by (simp_all add: centers_to_edges_def meshgrid_def n0_def n1_def n2_def l)
  show "map (\<lambda>i. el (centers_to_edges (fst (meshgrid X Y Z))) i 0 0)
           [0..<n0 (centers_to_edges (fst (meshgrid X Y Z)))]
         = map (\<lambda>i. x0 + (real i - 1 / 2) * hx) [0..<nx + 1]"
    unfolding s
    by (rule map_cong [OF refl])
       (use edges_even_axis0 [OF nx _ _ _ X, of Y Z] ny nz l in auto)
  show "map (\<lambda>j. el (centers_to_edges (fst (snd (meshgrid X Y Z)))) 0 j 0)
           [0..<n1 (centers_to_edges (fst (snd (meshgrid X Y Z))))]
         = map (\<lambda>i. y0 + (real i - 1 / 2) * hy) [0..<ny + 1]"
    unfolding s
    by (rule map_cong [OF refl])
       (use edges_even_axis1 [OF ny _ _ _ Y, of X Z] nx nz l in auto)
  show "map (\<lambda>k. el (centers_to_edges (snd (snd (meshgrid X Y Z)))) 0 0 k)
           [0..<n2 (centers_to_edges (snd (snd (meshgrid X Y Z))))]
         = map (\<lambda>i. z0 + (real i - 1 / 2) * hz) [0..<nz + 1]"
    unfolding s
    by (rule map_cong [OF refl])
       (use edges_even_axis2 [OF nz _ _ _ Z, of X Y] nx ny l in auto)
qed

lemma histogram3d_shape:
  assumes "length py = length px" "length pz = length px" "length w = length px"
    and "sorted b0" "sorted b1" "sorted b2"
  shows "\<exists>h. histogram3d (px, py, pz) b0 b1 b2 w t = Inr h
     \<and> hdtype h = t \<and> hshape h = (length b0 - 1, length b1 - 1, length b2 - 1)
     \<and> length (hvals h) = length b0 - 1
     \<and> (\<forall>r \<in> set (hvals h). length r = length b1 - 1
           \<and> (\<forall>c \<in> set r. length c = length b2 - 1))"
  using assms by (auto simp: histogram3d_def monotonic_sorted)

lemma calculateBins_unit_extent:
  fixes px py pz :: "real list"
  assumes ne: "px \<noteq> []" "py \<noteq> []" "pz \<noteq> []"
    and ex: "Max (set px) - Min (set px) = 1" "Max (set py) - Min (set py) = 1"
      "Max (set pz) - Min (set pz) = 1"
  shows "\<exists>XX YY ZZ. calculateBins (1/2) (1/4) (1/4) (px, py, pz) = Inr (XX, YY, ZZ)
     \<and> map (\<lambda>i. el XX i 0 0) [0..<n0 XX]
         = map (\<lambda>i. Min (set px) + (real i - 1 / 2) * (1 / 2)) [0..<4]
     \<and> map (\<lambda>j. el YY 0 j 0) [0..<n1 YY]
         = map (\<lambda>i. Min (set py) + (real i - 1 / 2) * (1 / 4)) [0..<6]
     \<and> map (\<lambda>k. el ZZ 0 0 k) [0..<n2 ZZ]
         = map (\<lambda>i. Min (set pz) + (real i - 1 / 2) * (1 / 4)) [0..<6]"
proof -
  let ?X = "map (\<lambda>i. Min (set px) + real i * (1 / 2)) [0..<3]"
  let ?Y = "map (\<lambda>i. Min (set py) + real i * (1 / 4)) [0..<5]"
  let ?Z = "map (\<lambda>i. Min (set pz) + real i * (1 / 4)) [0..<5]"
  have bc: "bin_count (Min (set px)) (Max (set px)) (1/2) = 3"
    "bin_count (Min (set py)) (Max (set py)) (1/4) = 5"
    "bin_count (Min (set pz)) (Max (set pz)) (1/4) = 5"
    using ex by (simp_all add: bin_count_def np_round_2 np_round_4)
  have lx: "linspace (Min (set px)) (Max (set px)) 3 = Inr ?X"
    using ex(1) by (simp add: linspace_def)
  have ly: "linspace (Min (set py)) (Max (set py)) 5 = Inr ?Y"
    using ex(2) by (simp add: linspace_def)
  have lz: "linspace (Min (set pz)) (Max (set pz)) 5 = Inr ?Z"
    using ex(3) by (simp add: linspace_def)
  note hb = HistBins_even [of 3 5 5 ?X "Min (set px)" "1/2" ?Y "Min (set py)" "1/4"
      ?Z "Min (set pz)" "1/4", OF _ _ _ refl refl refl]
  have cb: "calculateBins (1/2) (1/4) (1/4) (px, py, pz)
      = Inr (centers_to_edges (fst (meshgrid ?X ?Y ?Z)),
             centers_to_edges (fst (snd (meshgrid ?X ?Y ?Z))),
             centers_to_edges (snd (snd (meshgrid ?X ?Y ?Z))))"
    using ne hb(1)
    by (simp add: calculateBins_def np_max_def np_min_def bind_err_def bc lx ly lz
        case_prod_unfold del: upt_Suc)
  show ?thesis using cb hb(2,3,4) by simp
qed

lemma bind_err_Inr: "bind_err (Inr x) f = f x"
  by (simp add: bind_err_def)

text \<open>
  C6: for a point cloud whose extent along each of the three axes is 1, with as many data
  values as points, \<open>binData3D\<close> with the steps 0.5, 0.25 and 0.25 and no precomputed bins
  returns, and every array it returns (the intensity, the monitor if one is given, the
  normalization and its count if a normalization is given) has the shape \<open>(3,5,5)\<close>; the
  intensity has the element type of the data, and the normalization count, the last
  array, is of integer type.
\<close>

theorem binData3D_shape:
  fixes px py pz :: "real list"
  assumes ne: "px \<noteq> []" and ly: "length py = length px" and lz: "length pz = length px"
    and ld: "length (vals data') = length px"
    and lm: "\<forall>m. mon = Some m \<longrightarrow> length (vals m) = length px"
    and ln: "\<forall>n. norm' = Some n \<longrightarrow> length (vals n) = length px"
    and ex: "Max (set px) - Min (set px) = 1" "Max (set py) - Min (set py) = 1"
      "Max (set pz) - Min (set pz) = 1"
  shows "\<exists>ret bins. binData3D (1/2) (1/4) (1/4) (px, py, pz) data' norm' mon None = Inr (ret, bins)
     \<and> length ret = 1 + (case mon of None \<Rightarrow> 0 | Some m \<Rightarrow> 1)
                      + (case norm' of None \<Rightarrow> 0 | Some n \<Rightarrow> 2)
     \<and> (\<forall>h \<in> set ret. hshape h = (3, 5, 5) \<and> length (hvals h) = 3
           \<and> (\<forall>r \<in> set (hvals h). length r = 5 \<and> (\<forall>c \<in> set r. length c = 5)))
     \<and> hdtype (ret ! 0) = dtype_of data'
     \<and> (norm' \<noteq> None \<longrightarrow> hdtype (last ret) = Int64)"
proof -
  have ne': "py \<noteq> []" "pz \<noteq> []" using ne ly lz by auto
  from calculateBins_unit_extent [OF ne ne' ex]
  obtain XX YY ZZ where cb: "calculateBins (1/2) (1/4) (1/4) (px, py, pz) = Inr (XX, YY, ZZ)"
    and b0: "map (\<lambda>i. el XX i 0 0) [0..<n0 XX]
         = map (\<lambda>i. Min (set px) + (real i - 1 / 2) * (1 / 2)) [0..<4]"
    and b1: "map (\<lambda>j. el YY 0 j 0) [0..<n1 YY]
         = map (\<lambda>i. Min (set py) + (real i - 1 / 2) * (1 / 4)) [0..<6]"
    and b2: "map (\<lambda>k. el ZZ 0 0 k) [0..<n2 ZZ]
         = map (\<lambda>i. Min (set pz) + (real i - 1 / 2) * (1 / 4)) [0..<6]"
    by blast
  let ?B0 = "map (\<lambda>i. el XX i 0 0) [0..<n0 XX]"
  let ?B1 = "map (\<lambda>j. el YY 0 j 0) [0..<n1 YY]"
  let ?B2 = "map (\<lambda>k. el ZZ 0 0 k) [0..<n2 ZZ]"
  have s: "sorted ?B0" "sorted ?B1" "sorted ?B2"
    unfolding b0 b1 b2 by (rule sorted_even_edges, simp)+
  have l: "length ?B0 - 1 = 3" "length ?B1 - 1 = 5" "length ?B2 - 1 = 5"
    unfolding b0 b1 b2 by simp_all
  have H: "\<exists>h. histogram3d (px, py, pz) ?B0 ?B1 ?B2 w t = Inr h
     \<and> hdtype h = t \<and> hshape h = (3, 5, 5) \<and> length (hvals h) = 3
     \<and> (\<forall>r \<in> set (hvals h). length r = 5 \<and> (\<forall>c \<in> set r. length c = 5))"
    if "length w = length px" for w t
    using histogram3d_shape [OF ly lz that s, of t] unfolding l by blast
  obtain hI where hI: "histogram3d (px, py, pz) ?B0 ?B1 ?B2 (vals data') (dtype_of data') = Inr hI"
      "hdtype hI = dtype_of data'" "hshape hI = (3, 5, 5)" "length (hvals hI) = 3"
      "\<forall>r \<in> set (hvals hI). length r = 5 \<and> (\<forall>c \<in> set r. length c = 5)"
    using H [OF ld] by blast
  obtain hC where hC: "histogram3d (px, py, pz) ?B0 ?B1 ?B2
        (replicate (length (vals data')) 1) Int64 = Inr hC"
      "hdtype hC = Int64" "hshape hC = (3, 5, 5)" "length (hvals hC) = 3"
      "\<forall>r \<in> set (hvals hC). length r = 5 \<and> (\<forall>c \<in> set r. length c = 5)"
    using H [of "replicate (length (vals data')) 1" Int64] ld by auto
  have M: "\<exists>ms. (case mon of None \<Rightarrow> Inr []
                    | Some m \<Rightarrow> bind_err (histogram3d (px, py, pz) ?B0 ?B1 ?B2
                                            (vals m) (dtype_of m)) (\<lambda>h. Inr [h])) = Inr ms
      \<and> length ms = (case mon of None \<Rightarrow> 0 | Some m \<Rightarrow> 1)
      \<and> (\<forall>h \<in> set ms. hshape h = (3, 5, 5) \<and> length (hvals h) = 3
           \<and> (\<forall>r \<in> set (hvals h). length r = 5 \<and> (\<forall>c \<in> set r. length c = 5)))"
  proof (cases mon)
    case None
    then show ?thesis by simp
  next
    case (Some m)
    then have "length (vals m) = length px" using lm by simp
    from H [OF this, of "dtype_of m"] show ?thesis using Some by (auto simp: bind_err_def)
  qed
  have N: "\<exists>ns. (case norm' of None \<Rightarrow> Inr []
                    | Some n \<Rightarrow>
                        bind_err (histogram3d (px, py, pz) ?B0 ?B1 ?B2
                                    (vals n) (dtype_of n)) (\<lambda>h.
                        bind_err (histogram3d (px, py, pz) ?B0 ?B1 ?B2
                                    (replicate (length (vals data')) 1) Int64) (\<lambda>c.
                          Inr [h, c]))) = Inr ns
      \<and> length ns = (case norm' of None \<Rightarrow> 0 | Some n \<Rightarrow> 2)
      \<and> (norm' \<noteq> None \<longrightarrow> ns \<noteq> [] \<and> hdtype (last ns) = Int64)
      \<and> (\<forall>h \<in> set ns. hshape h = (3, 5, 5) \<and> length (hvals h) = 3
           \<and> (\<forall>r \<in> set (hvals h). length r = 5 \<and> (\<forall>c \<in> set r. length c = 5)))"
  proof (cases norm')
    case None
    then show ?thesis by simp
  next
    case (Some n)
    then have "length (vals n) = length px" using ln by simp
    from H [OF this, of "dtype_of n"] show ?thesis using Some hC by (auto simp: bind_err_def)
  qed
  from M obtain ms where ms: "(case mon of None \<Rightarrow> Inr []
                    | Some m \<Rightarrow> bind_err (histogram3d (px, py, pz) ?B0 ?B1 ?B2
                                            (vals m) (dtype_of m)) (\<lambda>h. Inr [h])) = Inr ms"
      "length ms = (case mon of None \<Rightarrow> 0 | Some m \<Rightarrow> 1)"
      "\<forall>h \<in> set ms. hshape h = (3, 5, 5) \<and> length (hvals h) = 3
           \<and> (\<forall>r \<in> set (hvals h). length r = 5 \<and> (\<forall>c \<in> set r. length c = 5))"
    by blast
  from N obtain ns where ns: "(case norm' of None \<Rightarrow> Inr []
                    | Some n \<Rightarrow>
                        bind_err (histogram3d (px, py, pz) ?B0 ?B1 ?B2
                                    (vals n) (dtype_of n)) (\<lambda>h.
                        bind_err (histogram3d (px, py, pz) ?B0 ?B1 ?B2
                                    (replicate (length (vals data')) 1) Int64) (\<lambda>c.
                          Inr [h, c]))) = Inr ns"
      "length ns = (case norm' of None \<Rightarrow> 0 | Some n \<Rightarrow> 2)"
      "norm' \<noteq> None \<longrightarrow> ns \<noteq> [] \<and> hdtype (last ns) = Int64"
      "\<forall>h \<in> set ns. hshape h = (3, 5, 5) \<and> length (hvals h) = 3
           \<and> (\<forall>r \<in> set (hvals h). length r = 5 \<and> (\<forall>c \<in> set r. length c = 5))"
    by blast
  have "binData3D (1/2) (1/4) (1/4) (px, py, pz) data' norm' mon None
      = Inr (hI # ms @ ns, (XX, YY, ZZ))"
    unfolding binData3D_def
    by (simp only: option.case cb bind_err_Inr prod.case Let_def hI(1) ms(1) ns(1))
  moreover have "length (hI # ms @ ns) = 1 + (case mon of None \<Rightarrow> 0 | Some m \<Rightarrow> 1)
                      + (case norm' of None \<Rightarrow> 0 | Some n \<Rightarrow> 2)"
    using ms(2) ns(2) by simp
  moreover have "\<forall>h \<in> set (hI # ms @ ns). hshape h = (3, 5, 5) \<and> length (hvals h) = 3
           \<and> (\<forall>r \<in> set (hvals h). length r = 5 \<and> (\<forall>c \<in> set r. length c = 5))"
    using hI(3,4,5) ms(3) ns(4) by auto
  moreover have "hdtype ((hI # ms @ ns) ! 0) = dtype_of data'" using hI(2) by simp
  moreover have "norm' \<noteq> None \<longrightarrow> hdtype (last (hI # ms @ ns)) = Int64"
    using ns(3) by auto
  ultimately show ?thesis by blast
qed

theorem binData3D_shape_witness:
  "\<exists>ret bins. binData3D (1/2) (1/4) (1/4) ([0, 1], [0, 1], [1, 2])
                 \<lparr>dtype_of = Int64, vals = [5, 7]\<rparr>
                 (Some \<lparr>dtype_of = Float64, vals = [1, 1]\<rparr>) None None = Inr (ret, bins)
     \<and> length ret = 3
     \<and> (\<forall>h \<in> set ret. hshape h = (3, 5, 5))
     \<and> hdtype (ret ! 0) = Int64
     \<and> hdtype (last ret) = Int64"
proof -
  from binData3D_shape [of "[0, 1]" "[0, 1]" "[1, 2]" "\<lparr>dtype_of = Int64, vals = [5, 7]\<rparr>"
      None "Some \<lparr>dtype_of = Float64, vals = [1, 1]\<rparr>"]
  obtain ret bins where
    "binData3D (1/2) (1/4) (1/4) ([0, 1], [0, 1], [1, 2]) \<lparr>dtype_of = Int64, vals = [5, 7]\<rparr>
       (Some \<lparr>dtype_of = Float64, vals = [1, 1]\<rparr>) None None = Inr (ret, bins)"
    "length ret = 3" "\<forall>h \<in> set ret. hshape h = (3, 5, 5)"
    "hdtype (ret ! 0) = Int64" "hdtype (last ret) = Int64"
    by (simp add: numeral_3_eq_3) blast
  then show ?thesis by blast
qed

text \<open>
  C7, as stated, fails: for the single point \<open>(0, 0, 0)\<close> and unit steps \<open>calculateBins\<close>
  raises \<open>IndexError\<close>; it produces no edges.
\<close>

theorem calculateBins_single_point_counterexample:
  "calculateBins 1 1 1 ([0], [0], [0]) = Inl IndexError"
  by (simp add: calculateBins_def np_max_def np_min_def bind_err_def linspace_def bin_count_def
      np_round_def meshgrid_def calculateGrid3D_def n0_def n1_def n2_def)

text \<open>
  C7 (amended): when all three axes of the point cloud collapse to a single point and the
  steps are not zero, the bin count on each axis is 1 and each axis has the point itself
  as its only centre; \<open>calculateGrid3D\<close> needs two centres on every axis, so \<open>calculateBins\<close>
  produces no edges and raises \<open>IndexError\<close>, and so does \<open>binData3D\<close> when it is given no
  precomputed bins.
\<close>

theorem calculateBins_single_point:
  assumes "set px = {x}" "set py = {y}" "set pz = {z}" "dx \<noteq> 0" "dy \<noteq> 0" "dz \<noteq> 0"
  shows "bin_count (Min (set px)) (Max (set px)) dx = 1
     \<and> bin_count (Min (set py)) (Max (set py)) dy = 1
     \<and> bin_count (Min (set pz)) (Max (set pz)) dz = 1
     \<and> linspace (Min (set px)) (Max (set px)) (bin_count (Min (set px)) (Max (set px)) dx) = Inr [x]
     \<and> linspace (Min (set py)) (Max (set py)) (bin_count (Min (set py)) (Max (set py)) dy) = Inr [y]
     \<and> linspace (Min (set pz)) (Max (set pz)) (bin_count (Min (set pz)) (Max (set pz)) dz) = Inr [z]
     \<and> calculateBins dx dy dz (px, py, pz) = Inl IndexError
     \<and> binData3D dx dy dz (px, py, pz) data' norm' mon None = Inl IndexError"
proof -
  have ne: "px \<noteq> []" "py \<noteq> []" "pz \<noteq> []" using assms(1-3) by auto
  have bc: "bin_count x x dx = 1" "bin_count y y dy = 1" "bin_count z z dz = 1"
    using assms(4-6) by (simp_all add: bin_count_def np_round_0)
  have cb: "calculateBins dx dy dz (px, py, pz) = Inl IndexError"
    using ne assms(1-3) bc
    by (simp add: calculateBins_def np_max_def np_min_def bind_err_def linspace_def
        meshgrid_def calculateGrid3D_def n0_def n1_def n2_def)
  then have "binData3D dx dy dz (px, py, pz) data' norm' mon None = Inl IndexError"
    by (simp add: binData3D_def bind_err_def)
  then show ?thesis using cb bc assms(1-3) by (simp add: linspace_def)
qed

theorem calculateBins_single_point_witness:
  "bin_count (Min (set [2, 2])) (Max (set [2, 2])) (1/2) = 1
   \<and> calculateBins (1/2) (1/4) (1/4) ([2, 2], [3, 3], [4, 4]) = Inl IndexError"
  using calculateBins_single_point [of "[2, 2]" 2 "[3, 3]" 3 "[4, 4]" 4 "1/2" "1/4" "1/4"]
  by simp

section \<open>The boundary contains the grid\<close>

lemma cross_affine:
  "cross a b (x, y) = cross a b (xl, yb) + (fst b - fst a) * (y - yb) - (snd b - snd a) * (x - xl)"
  by (simp add: cross_def algebra_simps)

lemma term_lower:
  fixes c d w :: real
  assumes "0 < d" "d < w"
  shows "min 0 (c * w) \<le> c * d" and "c \<noteq> 0 \<Longrightarrow> min 0 (c * w) < c * d"
proof -
  have m: "min 0 (c * w) \<le> 0" "min 0 (c * w) \<le> c * w" by simp_all
  have neg: "c * w < c * d" if "c < 0"
    using that assms by (simp add: mult_strict_left_mono_neg)
  have pos: "0 < c * d" if "0 < c"
    using that assms by simp
  consider "c < 0" | "c = 0" | "0 < c" by linarith
  then show "min 0 (c * w) \<le> c * d"
  proof cases
    case 1
    from neg [OF 1] m(2) show ?thesis by linarith
  next
    case 2
    then show ?thesis by simp
  next
    case 3
    from pos [OF 3] m(1) show ?thesis by linarith
  qed
  assume "c \<noteq> 0"
  then consider "c < 0" | "0 < c" by linarith
  then show "min 0 (c * w) < c * d"
  proof cases
    case 1
    from neg [OF 1] m(2) show ?thesis by linarith
  next
    case 2
    from pos [OF 2] m(1) show ?thesis by linarith
  qed
qed

text \<open>A point strictly inside a rectangle lies strictly to the left of every proper
  directed line that has no corner of the rectangle on its right.\<close>

lemma rect_strict:
  assumes x: "xl < x" "x < xr" and y: "yb < y" "y < yt" and ab: "a \<noteq> b"
    and c00: "0 \<le> cross a b (xl, yb)" and c01: "0 \<le> cross a b (xl, yt)"
    and c10: "0 \<le> cross a b (xr, yb)" and c11: "0 \<le> cross a b (xr, yt)"
  shows "0 < cross a b (x, y)"
proof -
  let ?A = "fst b - fst a" and ?B = "- (snd b - snd a)"
  let ?c = "cross a b (xl, yb)"
  have f: "cross a b (x, y) = ?c + ?A * (y - yb) + ?B * (x - xl)"
    using cross_affine [of a b x y xl yb] by (simp add: algebra_simps)
  have f01: "cross a b (xl, yt) = ?c + ?A * (yt - yb)"
    using cross_affine [of a b xl yt xl yb] by (simp add: algebra_simps)
  have f10: "cross a b (xr, yb) = ?c + ?B * (xr - xl)"
    using cross_affine [of a b xr yb xl yb] by (simp add: algebra_simps)
  have f11: "cross a b (xr, yt) = ?c + ?A * (yt - yb) + ?B * (xr - xl)"
    using cross_affine [of a b xr yt xl yb] by (simp add: algebra_simps)
  have dx: "0 < x - xl" "x - xl < xr - xl" and dy: "0 < y - yb" "y - yb < yt - yb"
    using x y by simp_all
  have tA: "min 0 (?A * (yt - yb)) \<le> ?A * (y - yb)" by (rule term_lower(1) [OF dy])
  have tB: "min 0 (?B * (xr - xl)) \<le> ?B * (x - xl)" by (rule term_lower(1) [OF dx])
  have base: "0 \<le> ?c + min 0 (?A * (yt - yb)) + min 0 (?B * (xr - xl))"
    using c00 c01 c10 c11 unfolding f01 f10 f11 by (simp add: min_def)
  have "?A \<noteq> 0 \<or> ?B \<noteq> 0" using ab by (cases a; cases b) auto
  then show ?thesis
  proof
    assume "?A \<noteq> 0"
    then have "min 0 (?A * (yt - yb)) < ?A * (y - yb)" by (rule term_lower(2) [OF dy])
    then show ?thesis using base tB unfolding f by linarith
  next
    assume "?B \<noteq> 0"
    then have "min 0 (?B * (xr - xl)) < ?B * (x - xl)" by (rule term_lower(2) [OF dx])
    then show ?thesis using base tA unfolding f by linarith
  qed
qed

lemma np_unique_props:
  "sorted (np_unique xs)" "distinct (np_unique xs)" "set (np_unique xs) = set xs"
  by (simp_all add: np_unique_def)

lemma sorted_distinct_bounds:
  assumes s: "sorted us" and d: "distinct us" and l: "2 \<le> length us" and x: "x \<in> set us"
  shows "us ! 0 < us ! 1" "us ! 0 \<le> x" "x \<le> last us" "us ! (length us - 2) < last us"
proof -
  have lst: "last us = us ! (length us - 1)" using l by (intro last_conv_nth) auto
  have "us ! 0 \<le> us ! 1" using s l by (intro sorted_nth_mono) auto
  moreover have "0 < length us" "1 < length us" using l by auto
  from nth_eq_iff_index_eq [OF d this] have "us ! 0 \<noteq> us ! 1" by simp
  ultimately show "us ! 0 < us ! 1" by simp
  from x obtain i where i: "i < length us" "x = us ! i" by (auto simp: in_set_conv_nth)
  show "us ! 0 \<le> x" unfolding i(2) using s i(1) by (intro sorted_nth_mono) auto
  show "x \<le> last us" unfolding i(2) lst using s i(1) by (intro sorted_nth_mono) auto
  have "us ! (length us - 2) \<le> us ! (length us - 1)" using s l by (intro sorted_nth_mono) auto
  moreover have "length us - 2 < length us" "length us - 1 < length us" using l by auto
  from nth_eq_iff_index_eq [OF d this] have "us ! (length us - 2) \<noteq> us ! (length us - 1)"
    using l by auto
  ultimately show "us ! (length us - 2) < last us" unfolding lst by simp
qed

lemma boundary_points_corners:
  assumes "boundary_points A3 A4 = Inr b"
  defines "u3 \<equiv> np_unique A3" and "u4 \<equiv> np_unique A4"
  shows "2 \<le> length u3" "2 \<le> length u4"
    and "(u3 ! 0 - (u3 ! 1 - u3 ! 0) * 0.5, u4 ! 0 - (u4 ! 1 - u4 ! 0) * 0.5) \<in> set b"
    and "(u3 ! 0 - (u3 ! 1 - u3 ! 0) * 0.5, last u4 + (last u4 - u4 ! (length u4 - 2)) * 0.5) \<in> set b"
    and "(last u3 + (last u3 - u3 ! (length u3 - 2)) * 0.5, u4 ! 0 - (u4 ! 1 - u4 ! 0) * 0.5) \<in> set b"
    and "(last u3 + (last u3 - u3 ! (length u3 - 2)) * 0.5,
          last u4 + (last u4 - u4 ! (length u4 - 2)) * 0.5) \<in> set b"
proof -
  show l: "2 \<le> length u3" "2 \<le> length u4"
    using assms(1) by (auto simp: boundary_points_def Let_def u3_def u4_def split: if_splits)
  then have ne: "u3 \<noteq> []" "u4 \<noteq> []" by auto
  have b: "b = map (\<lambda>y. (u3 ! 0 - (u3 ! 1 - u3 ! 0) * 0.5, y)) u4
      @ map (\<lambda>y. (last u3 + (last u3 - u3 ! (length u3 - 2)) * 0.5, y)) u4
      @ map (\<lambda>x. (x, u4 ! 0 - (u4 ! 1 - u4 ! 0) * 0.5)) u3
      @ map (\<lambda>x. (x, last u4 + (last u4 - u4 ! (length u4 - 2)) * 0.5)) u3
      @ [(u3 ! 0 - (u3 ! 1 - u3 ! 0) * 0.5, u4 ! 0 - (u4 ! 1 - u4 ! 0) * 0.5),
         (u3 ! 0 - (u3 ! 1 - u3 ! 0) * 0.5, last u4 + (last u4 - u4 ! (length u4 - 2)) * 0.5),
         (last u3 + (last u3 - u3 ! (length u3 - 2)) * 0.5, u4 ! 0 - (u4 ! 1 - u4 ! 0) * 0.5),
         (last u3 + (last u3 - u3 ! (length u3 - 2)) * 0.5,
          last u4 + (last u4 - u4 ! (length u4 - 2)) * 0.5)]"
    using assms(1) l ne
    by (simp add: boundary_points_def Let_def u3_def [symmetric] u4_def [symmetric] last_map
        nth_map [of 0] split: if_splits)
  show "(u3 ! 0 - (u3 ! 1 - u3 ! 0) * 0.5, u4 ! 0 - (u4 ! 1 - u4 ! 0) * 0.5) \<in> set b"
    and "(u3 ! 0 - (u3 ! 1 - u3 ! 0) * 0.5, last u4 + (last u4 - u4 ! (length u4 - 2)) * 0.5) \<in> set b"
    and "(last u3 + (last u3 - u3 ! (length u3 - 2)) * 0.5, u4 ! 0 - (u4 ! 1 - u4 ! 0) * 0.5) \<in> set b"
    and "(last u3 + (last u3 - u3 ! (length u3 - 2)) * 0.5,
          last u4 + (last u4 - u4 ! (length u4 - 2)) * 0.5) \<in> set b"
    by (subst b, simp)+
qed

lemma convexHullPoints_inside:
  assumes ret: "convexHullPoints geo A3 A4 = Inr P"
    and hull: "\<forall>b. boundary_points A3 A4 = Inr b \<longrightarrow> is_convex_hull b (ConvexHull geo b)"
    and x: "x \<in> set A3" and y: "y \<in> set A4"
  shows "\<exists>bound. hull_vertices geo A3 A4 = Inr bound \<and> P = PolygonS geo bound
           \<and> strictly_inside bound (x, y)"
proof -
  from ret obtain b where b: "boundary_points A3 A4 = Inr b"
    and hv: "hull_vertices geo A3 A4 = Inr (ConvexHull geo b)"
    and P: "P = PolygonS geo (ConvexHull geo b)"
    by (auto simp: convexHullPoints_def hull_vertices_def bind_err_def split: sum.splits)
  let ?u3 = "np_unique A3" and ?u4 = "np_unique A4"
  let ?xl = "?u3 ! 0 - (?u3 ! 1 - ?u3 ! 0) * 0.5"
  let ?xr = "last ?u3 + (last ?u3 - ?u3 ! (length ?u3 - 2)) * 0.5"
  let ?yb = "?u4 ! 0 - (?u4 ! 1 - ?u4 ! 0) * 0.5"
  let ?yt = "last ?u4 + (last ?u4 - ?u4 ! (length ?u4 - 2)) * 0.5"
  note c = boundary_points_corners [OF b]
  have x': "x \<in> set ?u3" and y': "y \<in> set ?u4" using x y by (simp_all add: np_unique_props)
  note bx = sorted_distinct_bounds [OF np_unique_props(1,2) c(1) x']
  note by' = sorted_distinct_bounds [OF np_unique_props(1,2) c(2) y']
  have sx: "0 < (?u3 ! 1 - ?u3 ! 0) * 0.5" "0 < (last ?u3 - ?u3 ! (length ?u3 - 2)) * 0.5"
    using bx(1,4) by simp_all
  have sy: "0 < (?u4 ! 1 - ?u4 ! 0) * 0.5" "0 < (last ?u4 - ?u4 ! (length ?u4 - 2)) * 0.5"
    using by'(1,4) by simp_all
  have xin: "?xl < x" "x < ?xr" using bx(2,3) sx by linarith+
  have yin: "?yb < y" "y < ?yt" using by'(2,3) sy by linarith+
  have H: "is_convex_hull b (ConvexHull geo b)" using hull b by simp
  have "0 < cross (fst e) (snd e) (x, y)" if e: "e \<in> set (polygon_edges (ConvexHull geo b))" for e
  proof (rule rect_strict [OF xin yin])
    show "fst e \<noteq> snd e" using H e by (auto simp: is_convex_hull_def list_all_iff)
    have all: "0 \<le> cross (fst e) (snd e) q" if "q \<in> set b" for q
      using H e that by (auto simp: is_convex_hull_def list_all_iff)
    show "0 \<le> cross (fst e) (snd e) (?xl, ?yb)" by (rule all [OF c(3)])
    show "0 \<le> cross (fst e) (snd e) (?xl, ?yt)" by (rule all [OF c(4)])
    show "0 \<le> cross (fst e) (snd e) (?xr, ?yb)" by (rule all [OF c(5)])
    show "0 \<le> cross (fst e) (snd e) (?xr, ?yt)" by (rule all [OF c(6)])
  qed
  then have "strictly_inside (ConvexHull geo b) (x, y)"
    by (simp add: strictly_inside_def list_all_iff)
  then show ?thesis using hv P by blast
qed

lemma length_np_unique: "length (np_unique xs) = card (set xs)"
  by (simp add: np_unique_def length_remdups_card_conv)

lemma convexHullPoints_IndexError:
  "convexHullPoints geo A3 A4 = Inl IndexError \<longleftrightarrow> card (set A3) < 2 \<or> card (set A4) < 2"
  by (auto simp: convexHullPoints_def hull_vertices_def boundary_points_def bind_err_def Let_def
      length_np_unique)

lemma convexHullPoints_returns:
  "(\<exists>P. convexHullPoints geo A3 A4 = Inr P) \<longleftrightarrow> 2 \<le> card (set A3) \<and> 2 \<le> card (set A4)"
  by (auto simp: convexHullPoints_def hull_vertices_def boundary_points_def bind_err_def Let_def
      length_np_unique)

text \<open>
  C5: if \<open>scipy.spatial.ConvexHull\<close> meets its contract on the points \<open>convexHullPoints\<close>
  hands to it (the vertices are input points in counterclockwise order, consecutive
  vertices differ, no input point lies to the right of an edge), then for A3 and A4 values
  with at least two distinct values each the function returns the polygon of the hull
  vertices, and every point with its first coordinate among the A3 values and its second
  among the A4 values, so every measurement point of the grid, lies strictly to the left of
  every edge of that polygon: strictly inside, not on the boundary. With fewer than two
  distinct values on an axis there is no spacing to read and the function raises
  \<open>IndexError\<close>.
\<close>

theorem convexHullPoints_contains_strictly:
  assumes hull: "\<forall>b. boundary_points A3 A4 = Inr b \<longrightarrow> is_convex_hull b (ConvexHull geo b)"
  shows "(2 \<le> card (set A3) \<and> 2 \<le> card (set A4) \<longrightarrow>
            (\<exists>bound. hull_vertices geo A3 A4 = Inr bound
               \<and> convexHullPoints geo A3 A4 = Inr (PolygonS geo bound)
               \<and> (\<forall>x \<in> set A3. \<forall>y \<in> set A4. strictly_inside bound (x, y))))
       \<and> (card (set A3) < 2 \<or> card (set A4) < 2 \<longrightarrow>
            convexHullPoints geo A3 A4 = Inl IndexError)"
proof (intro conjI impI)
  assume "2 \<le> card (set A3) \<and> 2 \<le> card (set A4)"
  then obtain P where ret: "convexHullPoints geo A3 A4 = Inr P"
    using convexHullPoints_returns [of geo A3 A4] by blast
  then obtain bound where hv: "hull_vertices geo A3 A4 = Inr bound" and P: "P = PolygonS geo bound"
    by (auto simp: convexHullPoints_def bind_err_def split: sum.splits)
  have "strictly_inside bound (x, y)" if "x \<in> set A3" "y \<in> set A4" for x y
    using convexHullPoints_inside [OF ret hull that] hv by auto
  then show "\<exists>bound. hull_vertices geo A3 A4 = Inr bound
               \<and> convexHullPoints geo A3 A4 = Inr (PolygonS geo bound)
               \<and> (\<forall>x \<in> set A3. \<forall>y \<in> set A4. strictly_inside bound (x, y))"
    using hv ret P by blast
next
  assume "card (set A3) < 2 \<or> card (set A4) < 2"
  then show "convexHullPoints geo A3 A4 = Inl IndexError"
    by (simp add: convexHullPoints_IndexError)
qed

theorem convexHullPoints_contains_strictly_witness:
  "\<exists>bound. hull_vertices
        \<lparr>PolygonS = (\<lambda>vs. vs), boundary_coords = (\<lambda>vs. vs),
         ConvexHull = (\<lambda>b. [(- 1/2, - 1/2), (3/2, - 1/2), (3/2, 3/2), (- 1/2, 3/2)]),
         Voronoi = (\<lambda>ps. ([], [])), contains_point = (\<lambda>P p. False),
         contains_poly = (\<lambda>P Q. False), union_poly = (\<lambda>P Q. P),
         intersection = (\<lambda>P Q. Single P), area = (\<lambda>P. 0)\<rparr> [0, 1, 0, 1] [0, 0, 1, 1] = Inr bound
      \<and> convexHullPoints
        \<lparr>PolygonS = (\<lambda>vs. vs), boundary_coords = (\<lambda>vs. vs),
         ConvexHull = (\<lambda>b. [(- 1/2, - 1/2), (3/2, - 1/2), (3/2, 3/2), (- 1/2, 3/2)]),
         Voronoi = (\<lambda>ps. ([], [])), contains_point = (\<lambda>P p. False),
         contains_poly = (\<lambda>P Q. False), union_poly = (\<lambda>P Q. P),
         intersection = (\<lambda>P Q. Single P), area = (\<lambda>P. 0)\<rparr> [0, 1, 0, 1] [0, 0, 1, 1] = Inr bound
      \<and> strictly_inside bound (0, 0) \<and> strictly_inside bound (1, 0)
      \<and> strictly_inside bound (0, 1) \<and> strictly_inside bound (1, 1)"
proof -
  let ?geo = "\<lparr>PolygonS = (\<lambda>vs::vec2 list. vs), boundary_coords = (\<lambda>vs. vs),
         ConvexHull = (\<lambda>b. [(- 1/2, - 1/2), (3/2, - 1/2), (3/2, 3/2), (- 1/2, 3/2)]),
         Voronoi = (\<lambda>ps. ([], [])), contains_point = (\<lambda>P p. False),
         contains_poly = (\<lambda>P Q. False), union_poly = (\<lambda>P Q. P),
         intersection = (\<lambda>P Q. Single P), area = (\<lambda>P. 0)\<rparr>"
  have u: "np_unique [0, 1, 0, 1::real] = [0, 1]" "np_unique [0, 0, 1, 1::real] = [0, 1]"
    by (simp_all add: np_unique_def)
  have b: "boundary_points [0, 1, 0, 1] [0, 0, 1, 1]
      = Inr [(- 1/2, 0), (- 1/2, 1), (3/2, 0), (3/2, 1), (0, - 1/2), (1, - 1/2), (0, 3/2),
             (1, 3/2), (- 1/2, - 1/2), (- 1/2, 3/2), (3/2, - 1/2), (3/2, 3/2)]"
    by (simp add: boundary_points_def u Let_def)
  have hull: "\<forall>b. boundary_points [0, 1, 0, 1] [0, 0, 1, 1] = Inr b
      \<longrightarrow> is_convex_hull b (ConvexHull ?geo b)"
    by (simp add: b is_convex_hull_def polygon_edges_def cross_def)
  have c: "(2::nat) \<le> card (set [0, 1, 0, 1::real])" "(2::nat) \<le> card (set [0, 0, 1, 1::real])"
    by (simp_all only: length_np_unique [symmetric] u) simp_all
  from convexHullPoints_contains_strictly [OF hull] c
  show ?thesis by auto
qed


end
